theory Spec2Isabelle
  imports Complex_Main "HOL-Library.Multiset"
begin

section \<open>Numbers\<close>

text \<open>
  The program is JavaScript; its numbers are IEEE-754 doubles (and single precision inside
  a \<^verbatim>\<open>Float32Array\<close>). The model computes over the real numbers: rounding and
  overflow are left out. Where the source can produce a value that is no real number
  (a division by zero, a read of \<^verbatim>\<open>undefined\<close>), the model has a branch of its
  own for it.
\<close>

definition MIN_PITCH :: real where
  "MIN_PITCH = 110"

definition MAX_PITCH :: real where
  "MAX_PITCH = 550"

text \<open>\<^verbatim>\<open>const clamp = (value, min, max) => Math.max(min, Math.min(max, value));\<close>\<close>

definition clamp :: "real \<Rightarrow> real \<Rightarrow> real \<Rightarrow> real" where
  "clamp v lo hi = max lo (min hi v)"

section \<open>The median of the detection history\<close>

text \<open>
  \<^verbatim>\<open>sorted = [...values].sort((a, b) => a - b)\<close> sorts a copy in ascending order.
  On the empty array \<^verbatim>\<open>sorted[-1] + sorted[0]\<close> is
  \<^verbatim>\<open>undefined + undefined\<close>, that is NaN: the model returns \<open>None\<close> there.
\<close>

definition median :: "real list \<Rightarrow> real option" where
  "median vals =
     (let sorted = sort vals;
          middle = length sorted div 2
      in if length sorted mod 2 = 0
         then (if middle = 0 then None
               else Some ((sorted ! (middle - 1) + sorted ! middle) / 2))
         else Some (sorted ! middle))"

section \<open>Autocorrelation detector\<close>

text \<open>
  A quotient \<^verbatim>\<open>sampleRate / d\<close> of the detectors. The sample rate is the one of
  the audio context, a positive number, so a zero divisor gives \<^verbatim>\<open>Infinity\<close>;
  a zero that is a sum of two non-zero numbers is \<^verbatim>\<open>+0\<close>.
\<close>

datatype jsnum = Finite real | PosInfinity

definition divideSampleRate :: "real \<Rightarrow> real \<Rightarrow> jsnum" where
  "divideSampleRate sampleRate d = (if d = 0 then PosInfinity else Finite (sampleRate / d))"

record scan =
  bestOffset :: int
  bestCorrelation :: real
  lastCorrelation :: real
  foundGoodCorrelation :: bool

text \<open>The inner loop over \<^verbatim>\<open>i\<close> and the line \<^verbatim>\<open>correlation = 1 - correlation / MAX_SAMPLES\<close>.\<close>

definition correlationAt :: "real list \<Rightarrow> nat \<Rightarrow> nat \<Rightarrow> real" where
  "correlationAt buffer MAX_SAMPLES offset =
     1 - (\<Sum>i\<leftarrow>[0..<MAX_SAMPLES]. \<bar>buffer ! i - buffer ! (i + offset)\<bar>) / real MAX_SAMPLES"

text \<open>
  The loop over \<^verbatim>\<open>offset\<close>: \<open>Inl\<close> is the \<^verbatim>\<open>return\<close> inside the loop,
  \<open>Inr\<close> the variables when the loop ends. Inside the loop \<open>i + offset\<close> is below
  \<open>2 * MAX_SAMPLES\<close>, so every read is in range.
\<close>

function scanOffsets :: "real list \<Rightarrow> real \<Rightarrow> nat \<Rightarrow> nat \<Rightarrow> scan \<Rightarrow> jsnum + scan" where
  "scanOffsets buffer sampleRate MAX_SAMPLES offset st =
     (if offset < MAX_SAMPLES then
        (let correlation = correlationAt buffer MAX_SAMPLES offset in
         if correlation > 0.9 \<and> correlation > lastCorrelation st then
           scanOffsets buffer sampleRate MAX_SAMPLES (offset + 1)
             ((if correlation > bestCorrelation st
               then st\<lparr>bestCorrelation := correlation, bestOffset := int offset\<rparr>
               else st)\<lparr>foundGoodCorrelation := True, lastCorrelation := correlation\<rparr>)
         else if foundGoodCorrelation st then
           (let shift = (correlation - lastCorrelation st) / bestCorrelation st
            in Inl (divideSampleRate sampleRate (real_of_int (bestOffset st) + 8 * shift)))
         else scanOffsets buffer sampleRate MAX_SAMPLES (offset + 1)
                (st\<lparr>lastCorrelation := correlation\<rparr>))
      else Inr st)"
  by pat_completeness auto
termination
  by (relation "measure (\<lambda>(buffer, sampleRate, MAX_SAMPLES, offset, st). MAX_SAMPLES - offset)") auto

definition scanStart :: scan where
  "scanStart = \<lparr>bestOffset = - 1, bestCorrelation = 0, lastCorrelation = 1,
                 foundGoodCorrelation = False\<rparr>"

text \<open>
  \<open>None\<close> is \<^verbatim>\<open>null\<close>. On the empty buffer \<^verbatim>\<open>rms / SIZE\<close> is
  \<^verbatim>\<open>0 / 0\<close>, NaN, and \<^verbatim>\<open>NaN < 0.01\<close> is false: the silence guard does not fire.
\<close>

definition autoCorrelate :: "real list \<Rightarrow> real \<Rightarrow> jsnum option" where
  "autoCorrelate buffer sampleRate =
     (let SIZE = length buffer;
          MAX_SAMPLES = SIZE div 2;
          rms = sqrt ((\<Sum>i\<leftarrow>[0..<SIZE]. buffer ! i * buffer ! i) / real SIZE)
      in if SIZE \<noteq> 0 \<and> rms < 0.01 then None
         else (case scanOffsets buffer sampleRate MAX_SAMPLES (if MIN_PITCH = 0 then 1 else 0) scanStart of
                 Inl freq \<Rightarrow> Some freq
               | Inr st \<Rightarrow>
                   if bestCorrelation st > 0.01
                   then Some (divideSampleRate sampleRate (real_of_int (bestOffset st)))
                   else None))"

section \<open>YIN detector\<close>

text \<open>
  For a buffer of one sample the factor is \<^verbatim>\<open>2 * Math.PI / 0\<close>; the windowed sample
  is then never read, since \<^verbatim>\<open>yinPitch\<close> returns at its first guard.
\<close>

definition hannWindow :: "real list \<Rightarrow> real list" where
  "hannWindow buffer =
     (let factor = 2 * pi / (real (length buffer) - 1)
      in map (\<lambda>i. buffer ! i * (0.5 - 0.5 * cos (factor * real i))) [0..<length buffer])"

definition threshold :: real where
  "threshold = 0.12"

definition probabilityThreshold :: real where
  "probabilityThreshold = 0.1"

text \<open>The inner loop of the difference function, for one \<^verbatim>\<open>tau\<close>.\<close>

definition difference :: "real list \<Rightarrow> nat \<Rightarrow> real" where
  "difference windowedBuffer tau =
     (\<Sum>i\<leftarrow>[0..<length windowedBuffer - tau].
        (windowedBuffer ! i - windowedBuffer ! (i + tau)) * (windowedBuffer ! i - windowedBuffer ! (i + tau)))"

text \<open>
  The cumulative mean normalisation, over the differences of \<^verbatim>\<open>tau = 1, 2, ...\<close>:
  \<^verbatim>\<open>yinBuffer[tau] = cumulativeSum ? (yinBuffer[tau] * tau) / cumulativeSum : 1\<close>.
\<close>

fun normalizeDifferences :: "real \<Rightarrow> nat \<Rightarrow> real list \<Rightarrow> real list" where
  "normalizeDifferences cumulativeSum tau [] = []"
| "normalizeDifferences cumulativeSum tau (d # ds) =
     (let c = cumulativeSum + d
      in (if c \<noteq> 0 then (d * real tau) / c else 1) # normalizeDifferences c (Suc tau) ds)"

text \<open>The \<^verbatim>\<open>while\<close> loop that walks down to the local minimum.\<close>

function descend :: "real list \<Rightarrow> nat \<Rightarrow> nat \<Rightarrow> nat" where
  "descend yinBuffer tauMax tau =
     (if tau + 1 < tauMax \<and> yinBuffer ! (tau + 1) < yinBuffer ! tau
      then descend yinBuffer tauMax (tau + 1) else tau)"
  by pat_completeness auto
termination
  by (relation "measure (\<lambda>(yinBuffer, tauMax, tau). tauMax - tau)") auto

text \<open>The threshold search; \<open>None\<close> is \<^verbatim>\<open>tauEstimate === -1\<close>.\<close>

function search :: "real list \<Rightarrow> nat \<Rightarrow> nat \<Rightarrow> nat option" where
  "search yinBuffer tauMax tau =
     (if tau < tauMax then
        (if yinBuffer ! tau < threshold then Some (descend yinBuffer tauMax tau)
         else search yinBuffer tauMax (tau + 1))
      else None)"
  by pat_completeness auto
termination
  by (relation "measure (\<lambda>(yinBuffer, tauMax, tau). tauMax - tau)") auto

text \<open>The parabolic interpolation around \<^verbatim>\<open>tauEstimate\<close>.\<close>

definition interpolate :: "real list \<Rightarrow> nat \<Rightarrow> nat \<Rightarrow> real" where
  "interpolate yinBuffer tauMax tauEstimate =
     (if tauEstimate > 1 \<and> tauEstimate + 1 < tauMax then
        (let s0 = yinBuffer ! (tauEstimate - 1);
             s1 = yinBuffer ! tauEstimate;
             s2 = yinBuffer ! (tauEstimate + 1);
             denominator = s0 + s2 - 2 * s1
         in if denominator \<noteq> 0
            then real tauEstimate + (s0 - s2) / (2 * denominator)
            else real tauEstimate)
      else real tauEstimate)"

text \<open>
  The search range. \<^verbatim>\<open>Math.floor(sampleRate / maxFrequency)\<close> is
  \<^verbatim>\<open>Infinity\<close> when \<^verbatim>\<open>maxFrequency\<close> is 0 (\<open>None\<close> here), and
  \<^verbatim>\<open>Math.min(Infinity, bufferSize - 1)\<close> is \<^verbatim>\<open>bufferSize - 1\<close>.
\<close>

definition tauMinOf :: "real \<Rightarrow> real \<Rightarrow> int option" where
  "tauMinOf sampleRate maxFrequency =
     (if maxFrequency = 0 then None else Some (max 2 \<lfloor>sampleRate / maxFrequency\<rfloor>))"

definition tauMaxOf :: "real \<Rightarrow> real \<Rightarrow> nat \<Rightarrow> int" where
  "tauMaxOf sampleRate minFrequency bufferSize =
     (if minFrequency = 0 then int bufferSize - 1
      else min \<lfloor>sampleRate / minFrequency\<rfloor> (int bufferSize - 1))"

text \<open>
  The tail of \<^verbatim>\<open>yinPitch\<close>, from the threshold search on. The result is
  \<^verbatim>\<open>{frequency, probability}\<close>; \<^verbatim>\<open>sampleRate / betterTau\<close> is not finite
  exactly when \<^verbatim>\<open>betterTau\<close> is 0.
\<close>

definition yinSelect :: "real \<Rightarrow> real list \<Rightarrow> nat \<Rightarrow> nat \<Rightarrow> (real \<times> real) option" where
  "yinSelect sampleRate yinBuffer tauMin tauMax =
     (case search yinBuffer tauMax tauMin of
        None \<Rightarrow> None
      | Some tauEstimate \<Rightarrow>
          (let probability = 1 - yinBuffer ! tauEstimate in
           if probability < probabilityThreshold then None
           else (let betterTau = interpolate yinBuffer tauMax tauEstimate in
                 if betterTau = 0 then None
                 else Some (sampleRate / betterTau, probability))))"

text \<open>
  The head of \<^verbatim>\<open>yinPitch\<close>: window, search range, difference function, silence
  guard, normalisation. \<^verbatim>\<open>yinBuffer[0]\<close> keeps the 0 the array is created with.
\<close>

definition yinBufferOf :: "real list \<Rightarrow> nat \<Rightarrow> real list" where
  "yinBufferOf windowedBuffer tauMax =
     0 # normalizeDifferences 0 1 (map (difference windowedBuffer) [1..<tauMax])"

definition yinPitch :: "real list \<Rightarrow> real \<Rightarrow> real \<Rightarrow> real \<Rightarrow> (real \<times> real) option" where
  "yinPitch buffer sampleRate minFrequency maxFrequency =
     (let windowedBuffer = hannWindow buffer;
          bufferSize = length windowedBuffer
      in case tauMinOf sampleRate maxFrequency of
           None \<Rightarrow> None
         | Some tauMin \<Rightarrow>
             (let tauMax = tauMaxOf sampleRate minFrequency bufferSize in
              if tauMin \<ge> tauMax then None
              else (let runningSum = (\<Sum>tau\<leftarrow>[1..<nat tauMax]. difference windowedBuffer tau) in
                    if runningSum < 1 / 10 ^ 9 then None
                    else yinSelect sampleRate (yinBufferOf windowedBuffer (nat tauMax))
                           (nat tauMin) (nat tauMax))))"

section \<open>The controller: configuration, state, start and stop\<close>

text \<open>
  The constructor's options. \<open>onValue\<close> says whether a callback was given; the values
  passed to it are the outcomes \<open>Emitted\<close> below. The model is for
  \<open>minPitch \<noteq> maxPitch\<close>: with equal bounds the source divides 0 by 0.
\<close>

record config =
  onValue :: bool
  minPitch :: real
  maxPitch :: real
  smoothing :: real

definition defaultConfig :: config where
  "defaultConfig = \<lparr>onValue = True, minPitch = MIN_PITCH, maxPitch = MAX_PITCH, smoothing = 0.25\<rparr>"

text \<open>
  The fields of the controller of the autocorrelation variant. An open audio context is
  its sample rate, the analyser its \<^verbatim>\<open>fftSize\<close>, the sample buffer its length (its
  contents are the frame handed to \<^verbatim>\<open>processAudio\<close>). The YIN variant adds two
  fields. \<^verbatim>\<open>maxDetections\<close> is assigned in the constructor only.
\<close>

record controller =
  audioContext :: "real option"
  analyser :: "nat option"
  dataArray :: "nat option"
  isRunning :: bool
  normalizedValue :: real
  fallbackTimer :: nat
  recentDetections :: "real list"

record yin_controller = controller +
  lastFrequency :: "real option"
  silenceFrames :: nat

definition maxDetections_ac :: nat where
  "maxDetections_ac = 7"

definition maxDetections :: nat where
  "maxDetections = 5"

definition new_controller :: controller where
  "new_controller =
     \<lparr>audioContext = None, analyser = None, dataArray = None, isRunning = False,
      normalizedValue = 0.5, fallbackTimer = 0, recentDetections = []\<rparr>"

definition new_yin_controller :: yin_controller where
  "new_yin_controller =
     \<lparr>audioContext = None, analyser = None, dataArray = None, isRunning = False,
      normalizedValue = 0.5, fallbackTimer = 0, recentDetections = [],
      lastFrequency = None, silenceFrames = 0\<rparr>"

text \<open>
  What one call gives its caller: \<open>Idle\<close> is a return before anything is done,
  \<open>Emitted v\<close> a frame whose value \<open>v\<close> went to the callback, \<open>Unobserved\<close> a frame
  processed without a callback, \<open>Failed\<close> an exception (for \<^verbatim>\<open>start\<close>, the rejected
  promise).
\<close>

datatype outcome = Idle | Emitted real | Unobserved | Failed

text \<open>
  How the statements of \<^verbatim>\<open>start\<close> after the \<^verbatim>\<open>isRunning\<close> test go, in the order of
  the source: \<^verbatim>\<open>getUserMedia\<close> rejects (\<open>Denied\<close>); the constructor of the audio
  context throws (\<open>ContextFailed\<close>); \<^verbatim>\<open>createMediaStreamSource\<close> or
  \<^verbatim>\<open>createAnalyser\<close> throws on the context just created, which has a sample rate
  (\<open>SourceFailed\<close>, \<open>AnalyserFailed\<close>); \<^verbatim>\<open>source.connect\<close> throws
  (\<open>ConnectFailed\<close>); or every statement succeeds (\<open>Granted\<close>). \<^verbatim>\<open>start\<close> has no
  handler: an exception ends it with the fields assigned so far. \<^verbatim>\<open>start\<close> is taken as
  one step: nothing else runs while it awaits.
\<close>

datatype acquisition =
  Denied | ContextFailed | SourceFailed real | AnalyserFailed real | ConnectFailed real
  | Granted real

text \<open>\<open>Rejected\<close> carries the state the exception leaves behind.\<close>

datatype 'a started = AlreadyRunning | Rejected 'a | Acquired 'a

text \<open>\<^verbatim>\<open>start\<close> up to and including \<^verbatim>\<open>this.isRunning = true\<close>; both variants have the same text.\<close>

definition acquire :: "acquisition \<Rightarrow> 'a controller_scheme \<Rightarrow> 'a controller_scheme started" where
  "acquire a s =
     (if isRunning s then AlreadyRunning
      else (case a of
              Denied \<Rightarrow> Rejected s
            | ContextFailed \<Rightarrow> Rejected s
            | SourceFailed sampleRate \<Rightarrow> Rejected (s\<lparr>audioContext := Some sampleRate\<rparr>)
            | AnalyserFailed sampleRate \<Rightarrow> Rejected (s\<lparr>audioContext := Some sampleRate\<rparr>)
            | ConnectFailed sampleRate \<Rightarrow>
                Rejected (s\<lparr>audioContext := Some sampleRate, analyser := Some 2048,
                            dataArray := Some 2048\<rparr>)
            | Granted sampleRate \<Rightarrow>
                Acquired (s\<lparr>audioContext := Some sampleRate, analyser := Some 2048,
                            dataArray := Some 2048, isRunning := True\<rparr>)))"

definition stop :: "'a controller_scheme \<Rightarrow> 'a controller_scheme" where
  "stop s = s\<lparr>isRunning := False, audioContext := None\<rparr>"

definition emit :: "config \<Rightarrow> 'a controller_scheme \<Rightarrow> outcome" where
  "emit cfg s = (if onValue cfg then Emitted (normalizedValue s) else Unobserved)"

text \<open>\<^verbatim>\<open>recentDetections.push(normalized)\<close>, then one \<^verbatim>\<open>shift()\<close> when over capacity.\<close>

definition pushDetection :: "nat \<Rightarrow> real \<Rightarrow> real list \<Rightarrow> real list" where
  "pushDetection capacity normalized history =
     (let history' = history @ [normalized]
      in if length history' > capacity then tl history' else history')"

text \<open>The rescaling of a frequency already clamped to the pitch range.\<close>

definition rescale :: "config \<Rightarrow> real \<Rightarrow> real" where
  "rescale cfg clampedFreq =
     clamp ((clampedFreq - minPitch cfg) / (maxPitch cfg - minPitch cfg)) 0 1"

section \<open>The controller of the YIN variant\<close>

text \<open>
  The classification of a frame: the raw normalized value, \<open>None\<close> when
  \<^verbatim>\<open>normalized\<close> stays undefined, and the counters. \<^verbatim>\<open>this.lastFrequency\<close> is
  falsy when it is null and when it is 0.
\<close>

definition classify ::
  "config \<Rightarrow> (real \<times> real) option \<Rightarrow> yin_controller \<Rightarrow> real option \<times> yin_controller" where
  "classify cfg detection s =
     (case detection of
        Some (frequency, probability) \<Rightarrow>
          (let clampedFreq = clamp frequency (minPitch cfg) (maxPitch cfg)
           in (Some (rescale cfg clampedFreq),
               s\<lparr>lastFrequency := Some clampedFreq, silenceFrames := 0, fallbackTimer := 0\<rparr>))
      | None \<Rightarrow>
          (if (case lastFrequency s of None \<Rightarrow> False | Some f \<Rightarrow> f \<noteq> 0) \<and> silenceFrames s < 6
           then (map_option (rescale cfg) (lastFrequency s),
                 s\<lparr>silenceFrames := silenceFrames s + 1\<rparr>)
           else (let s' = s\<lparr>silenceFrames := silenceFrames s + 1,
                              fallbackTimer := fallbackTimer s + 1\<rparr>
                 in if fallbackTimer s' > 12
                    then (Some 0.5, s'\<lparr>lastFrequency := None\<rparr>)
                    else (None, s'))))"

definition dynamicSmoothing :: "config \<Rightarrow> real \<Rightarrow> real" where
  "dynamicSmoothing cfg delta =
     (if delta > 0.4 then 0.85 else if delta > 0.15 then 0.55 else max (smoothing cfg) 0.18)"

text \<open>
  The stabilizer. The history is not empty after the push, so the median is a number;
  the \<open>None\<close> branch is never taken.
\<close>

definition stabilize :: "config \<Rightarrow> real \<Rightarrow> yin_controller \<Rightarrow> yin_controller" where
  "stabilize cfg normalized s =
     (let history = pushDetection maxDetections normalized (recentDetections s)
      in case median history of
           None \<Rightarrow> s\<lparr>recentDetections := history\<rparr>
         | Some stabilized \<Rightarrow>
             (let delta = \<bar>stabilized - normalizedValue s\<bar>
              in s\<lparr>recentDetections := history,
                    normalizedValue := normalizedValue s
                       + (stabilized - normalizedValue s) * dynamicSmoothing cfg delta\<rparr>))"

text \<open>\<^verbatim>\<open>processAudio\<close> from the line after the detector call.\<close>

definition processDetection ::
  "config \<Rightarrow> (real \<times> real) option \<Rightarrow> yin_controller \<Rightarrow> outcome \<times> yin_controller" where
  "processDetection cfg detection s =
     (case classify cfg detection s of
        (Some normalized, s1) \<Rightarrow> (let s2 = stabilize cfg normalized s1 in (emit cfg s2, s2))
      | (None, s1) \<Rightarrow> (emit cfg s1, s1))"

text \<open>
  One frame, given what the detector returns on it. Reading the sample rate of a null
  audio context throws.
\<close>

definition processFrame ::
  "config \<Rightarrow> (real \<times> real) option \<Rightarrow> yin_controller \<Rightarrow> outcome \<times> yin_controller" where
  "processFrame cfg detection s =
     (if \<not> isRunning s \<or> analyser s = None then (Idle, s)
      else (case audioContext s of
              None \<Rightarrow> (Failed, s)
            | Some sampleRate \<Rightarrow> processDetection cfg detection s))"

text \<open>\<^verbatim>\<open>processAudio\<close>, the frame being the samples the analyser writes into the buffer.\<close>

definition processAudio :: "config \<Rightarrow> real list \<Rightarrow> yin_controller \<Rightarrow> outcome \<times> yin_controller" where
  "processAudio cfg frame s =
     (if \<not> isRunning s \<or> analyser s = None then (Idle, s)
      else (case audioContext s of
              None \<Rightarrow> (Failed, s)
            | Some sampleRate \<Rightarrow>
                processDetection cfg (yinPitch frame sampleRate (minPitch cfg) (maxPitch cfg)) s))"

text \<open>
  \<^verbatim>\<open>start\<close>: the acquisition, then the first call of \<^verbatim>\<open>processAudio\<close>, given like
  every frame of a session by what the detector returns on it.
\<close>

definition start ::
  "config \<Rightarrow> acquisition \<Rightarrow> (real \<times> real) option \<Rightarrow> yin_controller \<Rightarrow> outcome \<times> yin_controller" where
  "start cfg a detection s =
     (case acquire a s of
        AlreadyRunning \<Rightarrow> (Idle, s)
      | Rejected s' \<Rightarrow> (Failed, s')
      | Acquired s' \<Rightarrow> processFrame cfg detection s')"

text \<open>
  A session as the host drives it: calls of \<^verbatim>\<open>start\<close>, \<^verbatim>\<open>stop\<close> and the scheduled
  frames, each frame standing for what the detector returns on it.
\<close>

datatype 'd event = Start acquisition 'd | Stop | Tick 'd

fun step :: "config \<Rightarrow> (real \<times> real) option event \<Rightarrow> yin_controller \<Rightarrow> outcome \<times> yin_controller" where
  "step cfg (Start a detection) s = start cfg a detection s"
| "step cfg Stop s = (Idle, stop s)"
| "step cfg (Tick detection) s = processFrame cfg detection s"

fun run :: "config \<Rightarrow> (real \<times> real) option event list \<Rightarrow> yin_controller \<Rightarrow> outcome list \<times> yin_controller" where
  "run cfg [] s = ([], s)"
| "run cfg (e # es) s =
     (case step cfg e s of (out, s') \<Rightarrow> (case run cfg es s' of (outs, s'') \<Rightarrow> (out # outs, s'')))"

text \<open>The state after \<open>n\<close> frames without a detection, and what frame \<open>n + 1\<close> does then.\<close>

fun silent :: "config \<Rightarrow> nat \<Rightarrow> yin_controller \<Rightarrow> yin_controller" where
  "silent cfg 0 s = s"
| "silent cfg (Suc n) s = snd (processFrame cfg None (silent cfg n s))"

definition rawAt :: "config \<Rightarrow> nat \<Rightarrow> yin_controller \<Rightarrow> real option" where
  "rawAt cfg k s = fst (classify cfg None (silent cfg (k - 1) s))"

definition emittedAt :: "config \<Rightarrow> nat \<Rightarrow> yin_controller \<Rightarrow> outcome" where
  "emittedAt cfg k s = fst (processFrame cfg None (silent cfg (k - 1) s))"

section \<open>The controller of the autocorrelation variant\<close>

text \<open>\<^verbatim>\<open>clamp(freq, min, max)\<close> on the detector's result, which may be \<^verbatim>\<open>Infinity\<close>.\<close>

fun clampFreq :: "jsnum \<Rightarrow> real \<Rightarrow> real \<Rightarrow> real" where
  "clampFreq (Finite v) lo hi = clamp v lo hi"
| "clampFreq PosInfinity lo hi = max lo hi"

text \<open>\<^verbatim>\<open>freq && freq > 0\<close>.\<close>

fun positive :: "jsnum option \<Rightarrow> bool" where
  "positive None = False"
| "positive (Some (Finite v)) = (v \<noteq> 0 \<and> v > 0)"
| "positive (Some PosInfinity) = True"

definition classify_ac ::
  "config \<Rightarrow> jsnum option \<Rightarrow> controller \<Rightarrow> real option \<times> controller" where
  "classify_ac cfg freq s =
     (case freq of
        Some f \<Rightarrow>
          (if positive freq
           then (Some (rescale cfg (clampFreq f (minPitch cfg) (maxPitch cfg))),
                 s\<lparr>fallbackTimer := 0\<rparr>)
           else (let s' = s\<lparr>fallbackTimer := fallbackTimer s + 1\<rparr>
                 in if fallbackTimer s' > 10 then (Some 0.5, s') else (None, s')))
      | None \<Rightarrow>
          (let s' = s\<lparr>fallbackTimer := fallbackTimer s + 1\<rparr>
           in if fallbackTimer s' > 10 then (Some 0.5, s') else (None, s')))"

definition dynamicSmoothing_ac :: "config \<Rightarrow> real \<Rightarrow> real" where
  "dynamicSmoothing_ac cfg delta =
     (if delta > 0.25 then 0.55 else if delta > 0.1 then 0.4 else smoothing cfg)"

definition stabilize_ac :: "config \<Rightarrow> real \<Rightarrow> controller \<Rightarrow> controller" where
  "stabilize_ac cfg normalized s =
     (let history = pushDetection maxDetections_ac normalized (recentDetections s)
      in case median history of
           None \<Rightarrow> s\<lparr>recentDetections := history\<rparr>
         | Some stabilized \<Rightarrow>
             (let delta = \<bar>stabilized - normalizedValue s\<bar>
              in s\<lparr>recentDetections := history,
                    normalizedValue := normalizedValue s
                       + (stabilized - normalizedValue s) * dynamicSmoothing_ac cfg delta\<rparr>))"

definition processDetection_ac ::
  "config \<Rightarrow> jsnum option \<Rightarrow> controller \<Rightarrow> outcome \<times> controller" where
  "processDetection_ac cfg freq s =
     (case classify_ac cfg freq s of
        (Some normalized, s1) \<Rightarrow> (let s2 = stabilize_ac cfg normalized s1 in (emit cfg s2, s2))
      | (None, s1) \<Rightarrow> (emit cfg s1, s1))"

definition processFrame_ac ::
  "config \<Rightarrow> jsnum option \<Rightarrow> controller \<Rightarrow> outcome \<times> controller" where
  "processFrame_ac cfg freq s =
     (if \<not> isRunning s \<or> analyser s = None then (Idle, s)
      else (case audioContext s of
              None \<Rightarrow> (Failed, s)
            | Some sampleRate \<Rightarrow> processDetection_ac cfg freq s))"

definition processAudio_ac :: "config \<Rightarrow> real list \<Rightarrow> controller \<Rightarrow> outcome \<times> controller" where
  "processAudio_ac cfg frame s =
     (if \<not> isRunning s \<or> analyser s = None then (Idle, s)
      else (case audioContext s of
              None \<Rightarrow> (Failed, s)
            | Some sampleRate \<Rightarrow> processDetection_ac cfg (autoCorrelate frame sampleRate) s))"

definition start_ac ::
  "config \<Rightarrow> acquisition \<Rightarrow> jsnum option \<Rightarrow> controller \<Rightarrow> outcome \<times> controller" where
  "start_ac cfg a freq s =
     (case acquire a s of
        AlreadyRunning \<Rightarrow> (Idle, s)
      | Rejected s' \<Rightarrow> (Failed, s')
      | Acquired s' \<Rightarrow> processFrame_ac cfg freq s')"

fun step_ac :: "config \<Rightarrow> jsnum option event \<Rightarrow> controller \<Rightarrow> outcome \<times> controller" where
  "step_ac cfg (Start a freq) s = start_ac cfg a freq s"
| "step_ac cfg Stop s = (Idle, stop s)"
| "step_ac cfg (Tick freq) s = processFrame_ac cfg freq s"

fun run_ac :: "config \<Rightarrow> jsnum option event list \<Rightarrow> controller \<Rightarrow> outcome list \<times> controller" where
  "run_ac cfg [] s = ([], s)"
| "run_ac cfg (e # es) s =
     (case step_ac cfg e s of (out, s') \<Rightarrow> (case run_ac cfg es s' of (outs, s'') \<Rightarrow> (out # outs, s'')))"

section \<open>Properties of the median\<close>

lemma sorted_permutation_is_sort:
  fixes ys :: "real list"
  assumes "sorted ys" and "mset ys = mset vals"
  shows "sort vals = ys"
  using assms by (simp add: properties_for_sort)

text \<open>
  Claim C7. For every non-empty history, the median is the middle element of the sorted
  history when the length is odd and the mean of the two middle elements of the sorted
  history when the length is even, where the sorted history is any ascending arrangement
  of the same values; the median of [0.2, 0.8] is 0.5 and the median of [0.1, 0.2, 0.9]
  is 0.2.
\<close>

theorem median_middle_of_sorted:
  "(\<forall>vals ys. vals \<noteq> [] \<and> sorted ys \<and> mset ys = mset vals \<longrightarrow>
      median vals =
        Some (if odd (length vals) then ys ! (length vals div 2)
              else (ys ! (length vals div 2 - 1) + ys ! (length vals div 2)) / 2))
   \<and> median [0.2, 0.8] = Some 0.5
   \<and> median [0.1, 0.2, 0.9] = Some 0.2"
proof (intro conjI allI impI)
  fix vals ys :: "real list"
  assume h: "vals \<noteq> [] \<and> sorted ys \<and> mset ys = mset vals"
  then have s: "sort vals = ys"
    using sorted_permutation_is_sort by blast
  have len: "length ys = length vals"
    using h by (metis size_mset)
  have pos: "0 < length vals"
    using h by simp
  show "median vals =
        Some (if odd (length vals) then ys ! (length vals div 2)
              else (ys ! (length vals div 2 - 1) + ys ! (length vals div 2)) / 2)"
  proof (cases "odd (length vals)")
    case True
    then show ?thesis
      by (simp add: median_def s len Let_def odd_iff_mod_2_eq_one)
  next
    case False
    then have "length vals div 2 \<noteq> 0"
      using pos by (metis dvd_div_eq_0_iff less_numeral_extra(3))
    with False show ?thesis
      by (simp add: median_def s len Let_def)
  qed
next
  show "median [0.2, 0.8] = Some 0.5"
    by (simp add: median_def)
next
  show "median [0.1, 0.2, 0.9] = Some 0.2"
    by (simp add: median_def)
qed

theorem median_middle_of_sorted_witness:
  "[3, 1, 2] \<noteq> ([] :: real list) \<and> sorted [1, 2, 3 :: real]
   \<and> mset [1, 2, 3 :: real] = mset [3, 1, 2]
   \<and> median [3, 1, 2] = Some 2"
proof -
  have m: "mset [1, 2, 3 :: real] = mset [3, 1, 2]"
    by (simp add: add_mset_commute)
  have h: "[3, 1, 2] \<noteq> ([] :: real list) \<and> sorted [1, 2, 3 :: real]
           \<and> mset [1, 2, 3 :: real] = mset [3, 1, 2]"
    using m by simp
  from median_middle_of_sorted
  have "median [3, 1, 2] =
        Some (if odd (length [3, 1, 2 :: real]) then [1, 2, 3] ! (length [3, 1, 2 :: real] div 2)
              else ([1, 2, 3] ! (length [3, 1, 2 :: real] div 2 - 1)
                    + [1, 2, 3] ! (length [3, 1, 2 :: real] div 2)) / 2)"
    using h by blast
  then have "median [3, 1, 2] = Some 2"
    by simp
  with h show ?thesis by simp
qed

section \<open>The dynamic smoothing factor\<close>

text \<open>
  With a baseline of 0.9 a delta of 0.1 (0.05 in the autocorrelation variant) selects the
  baseline, and the larger delta 0.2 selects the smaller factor of the middle tier.
\<close>

theorem smoothing_not_monotone:
  "\<not> dynamicSmoothing (defaultConfig\<lparr>smoothing := 0.9\<rparr>) 0.1
       \<le> dynamicSmoothing (defaultConfig\<lparr>smoothing := 0.9\<rparr>) 0.2
   \<and> \<not> dynamicSmoothing_ac (defaultConfig\<lparr>smoothing := 0.9\<rparr>) 0.05
       \<le> dynamicSmoothing_ac (defaultConfig\<lparr>smoothing := 0.9\<rparr>) 0.2"
  by (simp add: dynamicSmoothing_def dynamicSmoothing_ac_def defaultConfig_def)

text \<open>
  Claim C3, amended. The smoothing factor is monotone in the delta, over deltas in [0, 1],
  exactly when the baseline smoothing is at most 0.55 in the YIN variant (tiers 0.85, 0.55
  and \<open>max baseline 0.18\<close>) and at most 0.4 in the autocorrelation variant (tiers 0.55,
  0.4 and the baseline).
\<close>

theorem dynamicSmoothing_monotone_iff:
  "((\<forall>d1 d2. 0 \<le> d1 \<and> d1 < d2 \<and> d2 \<le> 1 \<longrightarrow> dynamicSmoothing cfg d1 \<le> dynamicSmoothing cfg d2)
      \<longleftrightarrow> smoothing cfg \<le> 0.55)
   \<and> ((\<forall>d1 d2. 0 \<le> d1 \<and> d1 < d2 \<and> d2 \<le> 1 \<longrightarrow> dynamicSmoothing_ac cfg d1 \<le> dynamicSmoothing_ac cfg d2)
      \<longleftrightarrow> smoothing cfg \<le> 0.4)"
proof (intro conjI iffI allI impI)
  assume a: "\<forall>d1 d2. 0 \<le> d1 \<and> d1 < d2 \<and> d2 \<le> 1 \<longrightarrow> dynamicSmoothing cfg d1 \<le> dynamicSmoothing cfg d2"
  have "(0::real) \<le> 0.1 \<and> (0.1::real) < 0.2 \<and> (0.2::real) \<le> 1" by simp
  with a have "dynamicSmoothing cfg 0.1 \<le> dynamicSmoothing cfg 0.2"
    by blast
  then show "smoothing cfg \<le> 0.55"
    by (simp add: dynamicSmoothing_def)
next
  fix d1 d2 :: real
  assume "smoothing cfg \<le> 0.55" and "0 \<le> d1 \<and> d1 < d2 \<and> d2 \<le> 1"
  then show "dynamicSmoothing cfg d1 \<le> dynamicSmoothing cfg d2"
    by (auto simp: dynamicSmoothing_def)
next
  assume a: "\<forall>d1 d2. 0 \<le> d1 \<and> d1 < d2 \<and> d2 \<le> 1 \<longrightarrow> dynamicSmoothing_ac cfg d1 \<le> dynamicSmoothing_ac cfg d2"
  have "(0::real) \<le> 0.05 \<and> (0.05::real) < 0.2 \<and> (0.2::real) \<le> 1" by simp
  with a have "dynamicSmoothing_ac cfg 0.05 \<le> dynamicSmoothing_ac cfg 0.2"
    by blast
  then show "smoothing cfg \<le> 0.4"
    by (simp add: dynamicSmoothing_ac_def)
next
  fix d1 d2 :: real
  assume "smoothing cfg \<le> 0.4" and "0 \<le> d1 \<and> d1 < d2 \<and> d2 \<le> 1"
  then show "dynamicSmoothing_ac cfg d1 \<le> dynamicSmoothing_ac cfg d2"
    by (auto simp: dynamicSmoothing_ac_def)
qed

theorem dynamicSmoothing_monotone_iff_witness:
  "smoothing defaultConfig \<le> 0.55 \<and> smoothing defaultConfig \<le> 0.4
   \<and> (0::real) \<le> 0.1 \<and> (0.1::real) < 0.5 \<and> (0.5::real) \<le> 1
   \<and> dynamicSmoothing defaultConfig 0.1 \<le> dynamicSmoothing defaultConfig 0.5
   \<and> dynamicSmoothing_ac defaultConfig 0.1 \<le> dynamicSmoothing_ac defaultConfig 0.5"
proof -
  have s: "smoothing defaultConfig \<le> 0.55 \<and> smoothing defaultConfig \<le> 0.4"
    by (simp add: defaultConfig_def)
  have d: "(0::real) \<le> 0.1 \<and> (0.1::real) < 0.5 \<and> (0.5::real) \<le> 1"
    by simp
  from dynamicSmoothing_monotone_iff [of defaultConfig] s
  have "(\<forall>d1 d2. 0 \<le> d1 \<and> d1 < d2 \<and> d2 \<le> 1 \<longrightarrow> dynamicSmoothing defaultConfig d1 \<le> dynamicSmoothing defaultConfig d2)
      \<and> (\<forall>d1 d2. 0 \<le> d1 \<and> d1 < d2 \<and> d2 \<le> 1 \<longrightarrow> dynamicSmoothing_ac defaultConfig d1 \<le> dynamicSmoothing_ac defaultConfig d2)"
    by blast
  with d have "dynamicSmoothing defaultConfig 0.1 \<le> dynamicSmoothing defaultConfig 0.5
   \<and> dynamicSmoothing_ac defaultConfig 0.1 \<le> dynamicSmoothing_ac defaultConfig 0.5"
    by blast
  with s d show ?thesis by blast
qed

section \<open>The autocorrelation scan\<close>

declare scanOffsets.simps [simp del]

lemma correlationAt_zero_offset:
  "0 < MAX_SAMPLES \<Longrightarrow> correlationAt buffer MAX_SAMPLES 0 = 1"
  by (simp add: correlationAt_def)

lemma scanOffsets_best:
  "scanOffsets buffer sampleRate MAX_SAMPLES offset st = Inr st' \<Longrightarrow> 1 \<le> offset \<Longrightarrow>
   (bestOffset st = - 1 \<and> bestCorrelation st = 0) \<or> (1 \<le> bestOffset st \<and> 0.9 < bestCorrelation st) \<Longrightarrow>
   (bestOffset st' = - 1 \<and> bestCorrelation st' = 0) \<or> (1 \<le> bestOffset st' \<and> 0.9 < bestCorrelation st')"
proof (induction buffer sampleRate MAX_SAMPLES offset st rule: scanOffsets.induct)
  case (1 buffer sampleRate MAX_SAMPLES offset st)
  let ?c = "correlationAt buffer MAX_SAMPLES offset"
  show ?case
  proof (cases "offset < MAX_SAMPLES")
    case False
    with "1.prems" show ?thesis by (simp add: scanOffsets.simps)
  next
    case inside: True
    show ?thesis
    proof (cases "?c > 0.9 \<and> ?c > lastCorrelation st")
      case rising: True
      let ?st = "(if ?c > bestCorrelation st
               then st\<lparr>bestCorrelation := ?c, bestOffset := int offset\<rparr>
               else st)\<lparr>foundGoodCorrelation := True, lastCorrelation := ?c\<rparr>"
      have eq: "scanOffsets buffer sampleRate MAX_SAMPLES (offset + 1) ?st = Inr st'"
        using "1.prems"(1) inside rising
        by (subst (asm) scanOffsets.simps) (simp add: Let_def)
      have inv: "(bestOffset ?st = - 1 \<and> bestCorrelation ?st = 0) \<or> (1 \<le> bestOffset ?st \<and> 0.9 < bestCorrelation ?st)"
        using "1.prems"(2,3) rising by auto
      have "1 \<le> offset + 1" by simp
      from "1.IH"(1)[OF inside refl rising eq this inv]
      show ?thesis .
    next
      case flat: False
      show ?thesis
      proof (cases "foundGoodCorrelation st")
        case True
        with "1.prems"(1) inside flat show ?thesis
          by (subst (asm) scanOffsets.simps) (auto simp: Let_def split: if_splits)
      next
        case False
        let ?st = "st\<lparr>lastCorrelation := ?c\<rparr>"
        have eq: "scanOffsets buffer sampleRate MAX_SAMPLES (offset + 1) ?st = Inr st'"
          using "1.prems"(1) inside flat False
          by (subst (asm) scanOffsets.simps) (auto simp: Let_def split: if_splits)
        have inv: "(bestOffset ?st = - 1 \<and> bestCorrelation ?st = 0) \<or> (1 \<le> bestOffset ?st \<and> 0.9 < bestCorrelation ?st)"
          using "1.prems"(3) by simp
        have "1 \<le> offset + 1" by simp
        from "1.IH"(2)[OF inside refl flat False eq this inv]
        show ?thesis .
      qed
    qed
  qed
qed


lemma scanOffsets_from_start:
  assumes "scanOffsets buffer sampleRate MAX_SAMPLES (if MIN_PITCH = 0 then 1 else 0) scanStart = Inr st"
  shows "(bestOffset st = - 1 \<and> bestCorrelation st = 0) \<or> (1 \<le> bestOffset st \<and> 0.9 < bestCorrelation st)"
proof (cases "0 < MAX_SAMPLES")
  case False
  with assms show ?thesis
    by (subst (asm) scanOffsets.simps) (auto simp: MIN_PITCH_def scanStart_def)
next
  case True
  then have "scanOffsets buffer sampleRate MAX_SAMPLES 1 (scanStart\<lparr>lastCorrelation := 1\<rparr>) = Inr st"
    using assms
    by (subst (asm) scanOffsets.simps)
       (simp add: MIN_PITCH_def correlationAt_zero_offset scanStart_def)
  then show ?thesis
    by (rule scanOffsets_best) (simp_all add: scanStart_def)
qed

text \<open>
  Claim C10. Whenever the scan of the autocorrelation detector ends in its fallback branch
  (the loop ran to its end and \<open>bestCorrelation > 0.01\<close>), \<open>bestOffset\<close> is at least 1:
  offset 0 is never recorded, its correlation 1 not being above the initial
  \<open>lastCorrelation\<close> 1. So \<^verbatim>\<open>sampleRate / bestOffset\<close> is a finite positive number,
  and the detector returns it unless the silence guard has returned before.
\<close>

theorem fallback_offset_positive:
  assumes "0 < sampleRate"
    and "scanOffsets buffer sampleRate (length buffer div 2) (if MIN_PITCH = 0 then 1 else 0) scanStart = Inr st"
    and "bestCorrelation st > 0.01"
  shows "1 \<le> bestOffset st
         \<and> divideSampleRate sampleRate (real_of_int (bestOffset st))
             = Finite (sampleRate / real_of_int (bestOffset st))
         \<and> 0 < sampleRate / real_of_int (bestOffset st)
         \<and> (autoCorrelate buffer sampleRate = None
            \<or> autoCorrelate buffer sampleRate
                = Some (Finite (sampleRate / real_of_int (bestOffset st))))"
proof -
  from scanOffsets_from_start[OF assms(2)] assms(3)
  have b: "1 \<le> bestOffset st" by auto
  then have d: "divideSampleRate sampleRate (real_of_int (bestOffset st))
             = Finite (sampleRate / real_of_int (bestOffset st))"
    by (simp add: divideSampleRate_def)
  have p: "0 < sampleRate / real_of_int (bestOffset st)"
    using b assms(1) by simp
  have "autoCorrelate buffer sampleRate = None
            \<or> autoCorrelate buffer sampleRate
                = Some (Finite (sampleRate / real_of_int (bestOffset st)))"
    using assms(2,3) d by (simp add: autoCorrelate_def Let_def)
  with b d p show ?thesis by blast
qed

lemma scan_square:
  "scanOffsets [1, - 1, 1, - 1, 1, - 1] 44100 (length [1, - 1, 1, - 1, 1, - 1 :: real] div 2)
     (if MIN_PITCH = 0 then 1 else 0) scanStart
   = Inr \<lparr>bestOffset = 2, bestCorrelation = 1, lastCorrelation = 1, foundGoodCorrelation = True\<rparr>"
  by (simp add: scanOffsets.simps correlationAt_def scanStart_def MIN_PITCH_def upt_rec [of _ "numeral _"] upt_rec [of 0 "Suc _"] nth_Cons' )

theorem fallback_offset_positive_witness:
  "(0 :: real) < 44100
   \<and> scanOffsets [1, - 1, 1, - 1, 1, - 1] 44100 (length [1, - 1, 1, - 1, 1, - 1 :: real] div 2)
        (if MIN_PITCH = 0 then 1 else 0) scanStart
      = Inr \<lparr>bestOffset = 2, bestCorrelation = 1, lastCorrelation = 1, foundGoodCorrelation = True\<rparr>
   \<and> bestCorrelation \<lparr>bestOffset = 2, bestCorrelation = 1, lastCorrelation = 1, foundGoodCorrelation = True\<rparr> > 0.01
   \<and> autoCorrelate [1, - 1, 1, - 1, 1, - 1] 44100 = Some (Finite 22050)"
proof -
  have r: "autoCorrelate [1, - 1, 1, - 1, 1, - 1] 44100 \<noteq> None"
    using scan_square
    by (simp add: autoCorrelate_def Let_def upt_rec [of _ "numeral _"] real_sqrt_less_iff [symmetric, of "1 / 100" ] del: real_sqrt_less_iff)
  from fallback_offset_positive [of 44100 "[1, - 1, 1, - 1, 1, - 1]", OF _ scan_square] r scan_square
  show ?thesis by simp
qed

section \<open>The threshold search of the YIN detector\<close>

declare descend.simps [simp del]
declare search.simps [simp del]

lemma descend_le:
  "yinBuffer ! descend yinBuffer tauMax tau \<le> yinBuffer ! tau"
proof (induction yinBuffer tauMax tau rule: descend.induct)
  case (1 yinBuffer tauMax tau)
  show ?case
  proof (cases "tau + 1 < tauMax \<and> yinBuffer ! (tau + 1) < yinBuffer ! tau")
    case True
    then have "descend yinBuffer tauMax tau = descend yinBuffer tauMax (tau + 1)"
      by (subst descend.simps) simp
    with "1.IH"[OF True] True show ?thesis by simp
  next
    case False
    then have "descend yinBuffer tauMax tau = tau"
      by (subst descend.simps) auto
    then show ?thesis by simp
  qed
qed

lemma descend_bounds:
  "tau < tauMax \<Longrightarrow> tau \<le> descend yinBuffer tauMax tau \<and> descend yinBuffer tauMax tau < tauMax"
proof (induction yinBuffer tauMax tau rule: descend.induct)
  case (1 yinBuffer tauMax tau)
  show ?case
  proof (cases "tau + 1 < tauMax \<and> yinBuffer ! (tau + 1) < yinBuffer ! tau")
    case True
    then have "descend yinBuffer tauMax tau = descend yinBuffer tauMax (tau + 1)"
      by (subst descend.simps) simp
    with "1.IH"[OF True] True show ?thesis by simp
  next
    case False
    then have "descend yinBuffer tauMax tau = tau"
      by (subst descend.simps) auto
    with "1.prems" show ?thesis by simp
  qed
qed

lemma search_below_threshold:
  "search yinBuffer tauMax tau = Some tauEstimate \<Longrightarrow> yinBuffer ! tauEstimate < threshold"
proof (induction yinBuffer tauMax tau rule: search.induct)
  case (1 yinBuffer tauMax tau)
  show ?case
  proof (cases "tau < tauMax")
    case False
    with "1.prems" show ?thesis by (subst (asm) search.simps) simp
  next
    case inside: True
    show ?thesis
    proof (cases "yinBuffer ! tau < threshold")
      case True
      with "1.prems" inside have "tauEstimate = descend yinBuffer tauMax tau"
        by (subst (asm) search.simps) simp
      with True descend_le [of yinBuffer tauMax tau] show ?thesis by simp
    next
      case False
      with "1.prems" inside have "search yinBuffer tauMax (tau + 1) = Some tauEstimate"
        by (subst (asm) search.simps) simp
      from "1.IH"[OF inside False this] show ?thesis .
    qed
  qed
qed

lemma search_bounds:
  "search yinBuffer tauMax tau = Some tauEstimate \<Longrightarrow> tau \<le> tauEstimate \<and> tauEstimate < tauMax"
proof (induction yinBuffer tauMax tau rule: search.induct)
  case (1 yinBuffer tauMax tau)
  show ?case
  proof (cases "tau < tauMax")
    case False
    with "1.prems" show ?thesis by (subst (asm) search.simps) simp
  next
    case inside: True
    show ?thesis
    proof (cases "yinBuffer ! tau < threshold")
      case True
      with "1.prems" inside have "tauEstimate = descend yinBuffer tauMax tau"
        by (subst (asm) search.simps) simp
      with descend_bounds [OF inside, of yinBuffer] show ?thesis by simp
    next
      case False
      with "1.prems" inside have "search yinBuffer tauMax (tau + 1) = Some tauEstimate"
        by (subst (asm) search.simps) simp
      from "1.IH"[OF inside False this] show ?thesis by simp
    qed
  qed
qed

text \<open>
  Claim C9. The low-confidence rejection of the YIN detector is unreachable: whenever the
  threshold search finds a candidate, the normalized difference there is below the
  threshold 0.12 (the descent only decreases it), so the probability is above 0.88 and
  the test \<open>probability < probabilityThreshold\<close> is false; the tail of the detector
  equals the same code without that test.
\<close>

theorem low_confidence_branch_unreachable:
  "(search yinBuffer tauMax tauMin = Some tauEstimate \<longrightarrow>
      yinBuffer ! tauEstimate < threshold
      \<and> 0.88 < 1 - yinBuffer ! tauEstimate
      \<and> \<not> 1 - yinBuffer ! tauEstimate < probabilityThreshold)
   \<and> yinSelect sampleRate yinBuffer tauMin tauMax =
       (case search yinBuffer tauMax tauMin of
          None \<Rightarrow> None
        | Some t \<Rightarrow>
            (let betterTau = interpolate yinBuffer tauMax t in
             if betterTau = 0 then None
             else Some (sampleRate / betterTau, 1 - yinBuffer ! t)))"
proof -
  have a: "yinBuffer ! tauEstimate < threshold
      \<and> 0.88 < 1 - yinBuffer ! tauEstimate
      \<and> \<not> 1 - yinBuffer ! tauEstimate < probabilityThreshold"
    if "search yinBuffer tauMax tauMin = Some tauEstimate"
    using search_below_threshold [OF that]
    by (simp add: threshold_def probabilityThreshold_def)
  have b: "yinSelect sampleRate yinBuffer tauMin tauMax =
       (case search yinBuffer tauMax tauMin of
          None \<Rightarrow> None
        | Some t \<Rightarrow>
            (let betterTau = interpolate yinBuffer tauMax t in
             if betterTau = 0 then None
             else Some (sampleRate / betterTau, 1 - yinBuffer ! t)))"
  proof (cases "search yinBuffer tauMax tauMin")
    case None
    then show ?thesis by (simp add: yinSelect_def)
  next
    case (Some t)
    from search_below_threshold [OF this]
    have "\<not> 1 - yinBuffer ! t < probabilityThreshold"
      by (simp add: threshold_def probabilityThreshold_def)
    with Some show ?thesis by (simp add: yinSelect_def Let_def)
  qed
  from a b show ?thesis by blast
qed

lemma search_example:
  "search [0, 1, 0.5, 0.1, 0.05, 0.2] 6 2 = Some 4"
  by (simp add: search.simps descend.simps threshold_def)

theorem low_confidence_branch_unreachable_witness:
  "search [0, 1, 0.5, 0.1, 0.05, 0.2] 6 2 = Some 4
   \<and> [0, 1, 0.5, 0.1, 0.05, 0.2 :: real] ! 4 < threshold
   \<and> \<not> 1 - [0, 1, 0.5, 0.1, 0.05, 0.2 :: real] ! 4 < probabilityThreshold"
  using low_confidence_branch_unreachable [of "[0, 1, 0.5, 0.1, 0.05, 0.2]" 6 2 4] search_example
  by blast

section \<open>Silent buffers\<close>

lemma sum_list_all_zero:
  fixes f :: "nat \<Rightarrow> real"
  assumes "\<And>i. i \<in> set xs \<Longrightarrow> f i = 0"
  shows "(\<Sum>i\<leftarrow>xs. f i) = 0"
  using assms by (induction xs) simp_all

lemma hannWindow_length: "length (hannWindow buffer) = length buffer"
  by (simp add: hannWindow_def Let_def)

lemma hannWindow_silent:
  assumes "\<forall>x\<in>set buffer. x = 0" and "i < length buffer"
  shows "hannWindow buffer ! i = 0"
  using assms by (simp add: hannWindow_def Let_def)

lemma difference_silent:
  assumes "\<forall>i<length w. w ! i = 0"
  shows "difference w tau = 0"
  unfolding difference_def
  by (rule sum_list_all_zero) (use assms in auto)

lemma scanOffsets_empty:
  "scanOffsets buffer sampleRate 0 offset st = Inr st"
  by (subst scanOffsets.simps) simp

text \<open>
  Claim C6. On a buffer whose samples are all zero, at any positive sample rate, the
  autocorrelation detector and the YIN detector both return no detection.
\<close>

theorem silent_buffer_no_detection:
  assumes "\<forall>x\<in>set buffer. x = 0" and "0 < sampleRate"
  shows "autoCorrelate buffer sampleRate = None
         \<and> yinPitch buffer sampleRate minFrequency maxFrequency = None"
proof
  have sq: "(\<Sum>i\<leftarrow>[0..<length buffer]. buffer ! i * buffer ! i) = 0"
    by (rule sum_list_all_zero) (use assms(1) in auto)
  show "autoCorrelate buffer sampleRate = None"
  proof (cases "length buffer = 0")
    case True
    then show ?thesis
      by (simp add: autoCorrelate_def scanOffsets_empty scanStart_def)
  next
    case False
    then show ?thesis
      by (simp add: autoCorrelate_def Let_def sq)
  qed
next
  have w: "\<forall>i<length (hannWindow buffer). hannWindow buffer ! i = 0"
    using assms(1) by (simp add: hannWindow_length hannWindow_silent)
  have "(\<Sum>tau\<leftarrow>[1..<n]. difference (hannWindow buffer) tau) = 0" for n
    by (rule sum_list_all_zero) (simp add: difference_silent [OF w])
  then show "yinPitch buffer sampleRate minFrequency maxFrequency = None"
    by (simp add: yinPitch_def Let_def split: option.splits)
qed

theorem silent_buffer_no_detection_witness:
  "set [0, 0, 0, 0, 0, 0, 0, 0 :: real] = {0} \<and> (0 :: real) < 44100
   \<and> autoCorrelate [0, 0, 0, 0, 0, 0, 0, 0] 44100 = None
   \<and> yinPitch [0, 0, 0, 0, 0, 0, 0, 0] 44100 MIN_PITCH MAX_PITCH = None"
  using silent_buffer_no_detection [of "[0, 0, 0, 0, 0, 0, 0, 0]" 44100 MIN_PITCH MAX_PITCH]
  by simp

section \<open>The emitted value stays in the unit interval\<close>

lemma clamp_unit: "0 \<le> clamp v 0 1 \<and> clamp v 0 1 \<le> 1"
  by (simp add: clamp_def)

lemma rescale_unit: "0 \<le> rescale cfg f \<and> rescale cfg f \<le> 1"
  by (simp add: rescale_def clamp_unit)

lemma median_between:
  assumes "vals \<noteq> []" and "\<forall>x\<in>set vals. lo \<le> x \<and> x \<le> hi"
  shows "\<exists>m. median vals = Some m \<and> lo \<le> m \<and> m \<le> hi"
proof -
  let ?s = "sort vals"
  have len: "length ?s = length vals" by simp
  have pos: "0 < length vals" using assms(1) by simp
  have mem: "lo \<le> ?s ! i \<and> ?s ! i \<le> hi" if "i < length vals" for i
  proof -
    have "?s ! i \<in> set ?s" using that by (simp del: set_sort)
    then show ?thesis using assms(2) by simp
  qed
  show ?thesis
  proof (cases "length vals mod 2 = 0")
    case True
    then have "2 \<le> length vals"
      using pos by presburger
    then have m: "length vals div 2 \<noteq> 0" "length vals div 2 < length vals"
      "length vals div 2 - 1 < length vals"
      by simp_all
    have "median vals = Some ((?s ! (length vals div 2 - 1) + ?s ! (length vals div 2)) / 2)"
      using True m(1) by (simp add: median_def Let_def)
    moreover have "lo \<le> (?s ! (length vals div 2 - 1) + ?s ! (length vals div 2)) / 2
        \<and> (?s ! (length vals div 2 - 1) + ?s ! (length vals div 2)) / 2 \<le> hi"
    proof -
      define a b where "a = ?s ! (length vals div 2 - 1)" and "b = ?s ! (length vals div 2)"
      have "lo \<le> a \<and> a \<le> hi" "lo \<le> b \<and> b \<le> hi"
        using mem [OF m(2)] mem [OF m(3)] by (simp_all add: a_def b_def)
      then have "lo \<le> (a + b) / 2 \<and> (a + b) / 2 \<le> hi" by simp
      then show ?thesis by (simp add: a_def b_def)
    qed
    ultimately show ?thesis by blast
  next
    case False
    have "length vals div 2 < length vals" using pos by simp
    from mem [OF this] False show ?thesis
      by (simp add: median_def Let_def)
  qed
qed

lemma pushDetection_nonempty: "pushDetection (Suc n) x h \<noteq> []"
  by (cases h) (simp_all add: pushDetection_def Let_def)

lemma pushDetection_subset: "set (pushDetection n x h) \<subseteq> insert x (set h)"
proof (cases h)
  case Nil
  then show ?thesis by (simp add: pushDetection_def Let_def)
next
  case (Cons a as)
  then show ?thesis by (auto simp: pushDetection_def Let_def)
qed

lemma convex_unit:
  fixes v m a :: real
  assumes "0 \<le> v" "v \<le> 1" "0 \<le> m" "m \<le> 1" "0 \<le> a" "a \<le> 1"
  shows "0 \<le> v + (m - v) * a \<and> v + (m - v) * a \<le> 1"
proof -
  have e: "v + (m - v) * a = (1 - a) * v + a * m" by (simp add: algebra_simps)
  have "0 \<le> (1 - a) * v + a * m" using assms by simp
  moreover have "(1 - a) * v \<le> (1 - a) * 1" using assms by (intro mult_left_mono) simp_all
  moreover have "a * m \<le> a * 1" using assms by (intro mult_left_mono) simp_all
  ultimately show ?thesis unfolding e by simp
qed

lemma dynamicSmoothing_unit:
  "smoothing cfg \<le> 1 \<Longrightarrow> 0 \<le> dynamicSmoothing cfg d \<and> dynamicSmoothing cfg d \<le> 1"
  by (auto simp: dynamicSmoothing_def max_def)

lemma dynamicSmoothing_ac_unit:
  "0 \<le> smoothing cfg \<Longrightarrow> smoothing cfg \<le> 1 \<Longrightarrow>
   0 \<le> dynamicSmoothing_ac cfg d \<and> dynamicSmoothing_ac cfg d \<le> 1"
  by (simp add: dynamicSmoothing_ac_def)

lemma stabilize_unit:
  assumes "smoothing cfg \<le> 1" and "0 \<le> x \<and> x \<le> 1"
    and "0 \<le> normalizedValue s \<and> normalizedValue s \<le> 1"
    and "\<forall>y\<in>set (recentDetections s). 0 \<le> y \<and> y \<le> 1"
  shows "0 \<le> normalizedValue (stabilize cfg x s) \<and> normalizedValue (stabilize cfg x s) \<le> 1
         \<and> (\<forall>y\<in>set (recentDetections (stabilize cfg x s)). 0 \<le> y \<and> y \<le> 1)"
proof -
  let ?h = "pushDetection maxDetections x (recentDetections s)"
  have ne: "?h \<noteq> []"
    using pushDetection_nonempty [of 4] by (simp add: maxDetections_def eval_nat_numeral)
  have rng: "\<forall>y\<in>set ?h. 0 \<le> y \<and> y \<le> 1"
    using pushDetection_subset [of maxDetections x "recentDetections s"] assms(2,4) by auto
  from median_between [OF ne rng] obtain m where m: "median ?h = Some m" "0 \<le> m" "m \<le> 1"
    by blast
  from convex_unit [of "normalizedValue s" m "dynamicSmoothing cfg \<bar>m - normalizedValue s\<bar>"]
    assms(3) m(2,3) dynamicSmoothing_unit [OF assms(1)]
  have "0 \<le> normalizedValue s + (m - normalizedValue s) * dynamicSmoothing cfg \<bar>m - normalizedValue s\<bar>
        \<and> normalizedValue s + (m - normalizedValue s) * dynamicSmoothing cfg \<bar>m - normalizedValue s\<bar> \<le> 1"
    by blast
  with m(1) rng show ?thesis
    by (simp add: stabilize_def Let_def)
qed

lemma stabilize_ac_unit:
  assumes "0 \<le> smoothing cfg" and "smoothing cfg \<le> 1" and "0 \<le> x \<and> x \<le> 1"
    and "0 \<le> normalizedValue s \<and> normalizedValue s \<le> 1"
    and "\<forall>y\<in>set (recentDetections s). 0 \<le> y \<and> y \<le> 1"
  shows "0 \<le> normalizedValue (stabilize_ac cfg x s) \<and> normalizedValue (stabilize_ac cfg x s) \<le> 1
         \<and> (\<forall>y\<in>set (recentDetections (stabilize_ac cfg x s)). 0 \<le> y \<and> y \<le> 1)"
proof -
  let ?h = "pushDetection maxDetections_ac x (recentDetections s)"
  have ne: "?h \<noteq> []"
    using pushDetection_nonempty [of 6] by (simp add: maxDetections_ac_def eval_nat_numeral)
  have rng: "\<forall>y\<in>set ?h. 0 \<le> y \<and> y \<le> 1"
    using pushDetection_subset [of maxDetections_ac x "recentDetections s"] assms(3,5) by auto
  from median_between [OF ne rng] obtain m where m: "median ?h = Some m" "0 \<le> m" "m \<le> 1"
    by blast
  from convex_unit [of "normalizedValue s" m "dynamicSmoothing_ac cfg \<bar>m - normalizedValue s\<bar>"]
    assms(4) m(2,3) dynamicSmoothing_ac_unit [OF assms(1,2)]
  have "0 \<le> normalizedValue s + (m - normalizedValue s) * dynamicSmoothing_ac cfg \<bar>m - normalizedValue s\<bar>
        \<and> normalizedValue s + (m - normalizedValue s) * dynamicSmoothing_ac cfg \<bar>m - normalizedValue s\<bar> \<le> 1"
    by blast
  with m(1) rng show ?thesis
    by (simp add: stabilize_ac_def Let_def)
qed

lemma classify_unit:
  assumes "classify cfg detection s = (raw, s1)"
  shows "normalizedValue s1 = normalizedValue s \<and> recentDetections s1 = recentDetections s
         \<and> (\<forall>x. raw = Some x \<longrightarrow> 0 \<le> x \<and> x \<le> 1)"
  using assms rescale_unit [of cfg]
  by (auto simp: classify_def Let_def split: option.splits if_splits prod.splits)

lemma classify_ac_unit:
  assumes "classify_ac cfg freq s = (raw, s1)"
  shows "normalizedValue s1 = normalizedValue s \<and> recentDetections s1 = recentDetections s
         \<and> (\<forall>x. raw = Some x \<longrightarrow> 0 \<le> x \<and> x \<le> 1)"
  using assms rescale_unit [of cfg]
  by (auto simp: classify_ac_def Let_def split: option.splits if_splits prod.splits)

lemma processDetection_unit:
  assumes "smoothing cfg \<le> 1"
    and "0 \<le> normalizedValue s \<and> normalizedValue s \<le> 1"
    and "\<forall>y\<in>set (recentDetections s). 0 \<le> y \<and> y \<le> 1"
    and "processDetection cfg detection s = (out, s')"
  shows "0 \<le> normalizedValue s' \<and> normalizedValue s' \<le> 1
         \<and> (\<forall>y\<in>set (recentDetections s'). 0 \<le> y \<and> y \<le> 1)
         \<and> (\<forall>v. out = Emitted v \<longrightarrow> 0 \<le> v \<and> v \<le> 1)"
proof -
  obtain raw s1 where c: "classify cfg detection s = (raw, s1)"
    by (cases "classify cfg detection s")
  note u = classify_unit [OF c]
  show ?thesis
  proof (cases raw)
    case None
    with c assms(4) have "s' = s1" "out = emit cfg s1"
      by (auto simp: processDetection_def)
    with u assms(2,3) show ?thesis by (simp add: emit_def)
  next
    case (Some x)
    with c assms(4) have e: "s' = stabilize cfg x s1" "out = emit cfg (stabilize cfg x s1)"
      by (auto simp: processDetection_def Let_def)
    from u Some have x: "0 \<le> x \<and> x \<le> 1" by simp
    from stabilize_unit [OF assms(1) x, of s1] u assms(2,3) e show ?thesis
      by (simp add: emit_def)
  qed
qed

lemma processDetection_ac_unit:
  assumes "0 \<le> smoothing cfg" and "smoothing cfg \<le> 1"
    and "0 \<le> normalizedValue s \<and> normalizedValue s \<le> 1"
    and "\<forall>y\<in>set (recentDetections s). 0 \<le> y \<and> y \<le> 1"
    and "processDetection_ac cfg freq s = (out, s')"
  shows "0 \<le> normalizedValue s' \<and> normalizedValue s' \<le> 1
         \<and> (\<forall>y\<in>set (recentDetections s'). 0 \<le> y \<and> y \<le> 1)
         \<and> (\<forall>v. out = Emitted v \<longrightarrow> 0 \<le> v \<and> v \<le> 1)"
proof -
  obtain raw s1 where c: "classify_ac cfg freq s = (raw, s1)"
    by (cases "classify_ac cfg freq s")
  note u = classify_ac_unit [OF c]
  show ?thesis
  proof (cases raw)
    case None
    with c assms(5) have "s' = s1" "out = emit cfg s1"
      by (auto simp: processDetection_ac_def)
    with u assms(3,4) show ?thesis by (simp add: emit_def)
  next
    case (Some x)
    with c assms(5) have e: "s' = stabilize_ac cfg x s1" "out = emit cfg (stabilize_ac cfg x s1)"
      by (auto simp: processDetection_ac_def Let_def)
    from u Some have x: "0 \<le> x \<and> x \<le> 1" by simp
    from stabilize_ac_unit [OF assms(1,2) x, of s1] u assms(3,4) e show ?thesis
      by (simp add: emit_def)
  qed
qed

lemma step_unit:
  assumes "smoothing cfg \<le> 1"
    and "0 \<le> normalizedValue s \<and> normalizedValue s \<le> 1"
    and "\<forall>y\<in>set (recentDetections s). 0 \<le> y \<and> y \<le> 1"
    and "step cfg e s = (out, s')"
  shows "0 \<le> normalizedValue s' \<and> normalizedValue s' \<le> 1
         \<and> (\<forall>y\<in>set (recentDetections s'). 0 \<le> y \<and> y \<le> 1)
         \<and> (\<forall>v. out = Emitted v \<longrightarrow> 0 \<le> v \<and> v \<le> 1)"
proof -
  have frame: "0 \<le> normalizedValue t' \<and> normalizedValue t' \<le> 1
         \<and> (\<forall>y\<in>set (recentDetections t'). 0 \<le> y \<and> y \<le> 1)
         \<and> (\<forall>v. out = Emitted v \<longrightarrow> 0 \<le> v \<and> v \<le> 1)"
    if "processFrame cfg d t = (out, t')" "0 \<le> normalizedValue t \<and> normalizedValue t \<le> 1"
       "\<forall>y\<in>set (recentDetections t). 0 \<le> y \<and> y \<le> 1" for d t t'
  proof (cases "\<not> isRunning t \<or> analyser t = None \<or> audioContext t = None")
    case True
    with that show ?thesis by (auto simp: processFrame_def split: option.splits if_splits)
  next
    case False
    with that(1) have "processDetection cfg d t = (out, t')"
      by (auto simp: processFrame_def split: option.splits if_splits)
    from processDetection_unit [OF assms(1) that(2,3) this] show ?thesis .
  qed
  show ?thesis
  proof (cases e)
    case (Start a d)
    show ?thesis
    proof (cases "acquire a s")
      case AlreadyRunning
      with Start assms(2,3,4) show ?thesis by (auto simp: start_def)
    next
      case (Rejected t)
      then have "normalizedValue t = normalizedValue s" "recentDetections t = recentDetections s"
        by (auto simp: acquire_def split: if_splits acquisition.splits)
      with Rejected Start assms(2,3,4) show ?thesis by (auto simp: start_def)
    next
      case (Acquired t)
      then have t: "normalizedValue t = normalizedValue s" "recentDetections t = recentDetections s"
        by (auto simp: acquire_def split: if_splits acquisition.splits)
      from Acquired Start assms(4) have "processFrame cfg d t = (out, s')"
        by (simp add: start_def)
      from frame [OF this] t assms(2,3) show ?thesis by simp
    qed
  next
    case Stop
    with assms(2,3,4) show ?thesis by (auto simp: stop_def)
  next
    case (Tick d)
    with assms(4) have "processFrame cfg d s = (out, s')" by simp
    from frame [OF this assms(2,3)] show ?thesis .
  qed
qed

lemma step_ac_unit:
  assumes "0 \<le> smoothing cfg" and "smoothing cfg \<le> 1"
    and "0 \<le> normalizedValue s \<and> normalizedValue s \<le> 1"
    and "\<forall>y\<in>set (recentDetections s). 0 \<le> y \<and> y \<le> 1"
    and "step_ac cfg e s = (out, s')"
  shows "0 \<le> normalizedValue s' \<and> normalizedValue s' \<le> 1
         \<and> (\<forall>y\<in>set (recentDetections s'). 0 \<le> y \<and> y \<le> 1)
         \<and> (\<forall>v. out = Emitted v \<longrightarrow> 0 \<le> v \<and> v \<le> 1)"
proof -
  have frame: "0 \<le> normalizedValue t' \<and> normalizedValue t' \<le> 1
         \<and> (\<forall>y\<in>set (recentDetections t'). 0 \<le> y \<and> y \<le> 1)
         \<and> (\<forall>v. out = Emitted v \<longrightarrow> 0 \<le> v \<and> v \<le> 1)"
    if "processFrame_ac cfg d t = (out, t')" "0 \<le> normalizedValue t \<and> normalizedValue t \<le> 1"
       "\<forall>y\<in>set (recentDetections t). 0 \<le> y \<and> y \<le> 1" for d t t'
  proof (cases "\<not> isRunning t \<or> analyser t = None \<or> audioContext t = None")
    case True
    with that show ?thesis by (auto simp: processFrame_ac_def split: option.splits if_splits)
  next
    case False
    with that(1) have "processDetection_ac cfg d t = (out, t')"
      by (auto simp: processFrame_ac_def split: option.splits if_splits)
    from processDetection_ac_unit [OF assms(1,2) that(2,3) this] show ?thesis .
  qed
  show ?thesis
  proof (cases e)
    case (Start a d)
    show ?thesis
    proof (cases "acquire a s")
      case AlreadyRunning
      with Start assms(3,4,5) show ?thesis by (auto simp: start_ac_def)
    next
      case (Rejected t)
      then have "normalizedValue t = normalizedValue s" "recentDetections t = recentDetections s"
        by (auto simp: acquire_def split: if_splits acquisition.splits)
      with Rejected Start assms(3,4,5) show ?thesis by (auto simp: start_ac_def)
    next
      case (Acquired t)
      then have t: "normalizedValue t = normalizedValue s" "recentDetections t = recentDetections s"
        by (auto simp: acquire_def split: if_splits acquisition.splits)
      from Acquired Start assms(5) have "processFrame_ac cfg d t = (out, s')"
        by (simp add: start_ac_def)
      from frame [OF this] t assms(3,4) show ?thesis by simp
    qed
  next
    case Stop
    with assms(3,4,5) show ?thesis by (auto simp: stop_def)
  next
    case (Tick d)
    with assms(5) have "processFrame_ac cfg d s = (out, s')" by simp
    from frame [OF this assms(3,4)] show ?thesis .
  qed
qed

lemma run_unit:
  assumes "smoothing cfg \<le> 1"
  shows "0 \<le> normalizedValue s \<and> normalizedValue s \<le> 1 \<Longrightarrow>
         \<forall>y\<in>set (recentDetections s). 0 \<le> y \<and> y \<le> 1 \<Longrightarrow>
         Emitted v \<in> set (fst (run cfg events s)) \<Longrightarrow> 0 \<le> v \<and> v \<le> 1"
proof (induction events arbitrary: s)
  case Nil
  then show ?case by simp
next
  case (Cons e es)
  obtain out s' where st: "step cfg e s = (out, s')"
    by (cases "step cfg e s")
  note u = step_unit [OF assms Cons.prems(1,2) st]
  from Cons.prems(3) st have "Emitted v = out \<or> Emitted v \<in> set (fst (run cfg es s'))"
    by (auto split: prod.splits)
  then show ?case
  proof
    assume "Emitted v = out"
    with u show ?thesis by auto
  next
    assume "Emitted v \<in> set (fst (run cfg es s'))"
    with Cons.IH [of s'] u show ?thesis by blast
  qed
qed

lemma run_ac_unit:
  assumes "0 \<le> smoothing cfg" and "smoothing cfg \<le> 1"
  shows "0 \<le> normalizedValue s \<and> normalizedValue s \<le> 1 \<Longrightarrow>
         \<forall>y\<in>set (recentDetections s). 0 \<le> y \<and> y \<le> 1 \<Longrightarrow>
         Emitted v \<in> set (fst (run_ac cfg events s)) \<Longrightarrow> 0 \<le> v \<and> v \<le> 1"
proof (induction events arbitrary: s)
  case Nil
  then show ?case by simp
next
  case (Cons e es)
  obtain out s' where st: "step_ac cfg e s = (out, s')"
    by (cases "step_ac cfg e s")
  note u = step_ac_unit [OF assms Cons.prems(1,2) st]
  from Cons.prems(3) st have "Emitted v = out \<or> Emitted v \<in> set (fst (run_ac cfg es s'))"
    by (auto split: prod.splits)
  then show ?case
  proof
    assume "Emitted v = out"
    with u show ?thesis by auto
  next
    assume "Emitted v \<in> set (fst (run_ac cfg es s'))"
    with Cons.IH [of s'] u show ?thesis by blast
  qed
qed

text \<open>
  Claim C1. From a newly constructed controller (smoothed value 0.5), whatever calls of
  start and stop and whatever frames follow, and whatever the detector returns on each
  frame, every value passed to the output callback lies in [0, 1]. This holds for both
  variants of the controller, for a baseline smoothing in [0, 1] and distinct pitch bounds.
\<close>

theorem emitted_value_in_unit_interval:
  assumes "0 \<le> smoothing cfg" and "smoothing cfg \<le> 1" and "minPitch cfg \<noteq> maxPitch cfg"
  shows "(Emitted v \<in> set (fst (run cfg events new_yin_controller)) \<longrightarrow> 0 \<le> v \<and> v \<le> 1)
         \<and> (Emitted v \<in> set (fst (run_ac cfg events_ac new_controller)) \<longrightarrow> 0 \<le> v \<and> v \<le> 1)"
proof -
  have a: "0 \<le> v \<and> v \<le> 1" if "Emitted v \<in> set (fst (run cfg events new_yin_controller))"
    by (rule run_unit [OF assms(2) _ _ that]) (simp_all add: new_yin_controller_def)
  have b: "0 \<le> v \<and> v \<le> 1" if "Emitted v \<in> set (fst (run_ac cfg events_ac new_controller))"
    by (rule run_ac_unit [OF assms(1,2) _ _ that]) (simp_all add: new_controller_def)
  from a b show ?thesis by blast
qed


lemma median_single: "median [x] = Some x"
  by (simp add: median_def)

lemma first_frame_yin:
  "fst (run defaultConfig [Start (Granted 44100) (Some (550, 0.9))] new_yin_controller)
   = [Emitted 0.925]"
  by (simp add: start_def acquire_def new_yin_controller_def processFrame_def processDetection_def
      classify_def defaultConfig_def MIN_PITCH_def MAX_PITCH_def clamp_def rescale_def
      stabilize_def pushDetection_def maxDetections_def median_single dynamicSmoothing_def emit_def)

lemma first_frame_ac:
  "fst (run_ac defaultConfig [Start (Granted 44100) (Some (Finite 550))] new_controller)
   = [Emitted 0.775]"
  by (simp add: start_ac_def acquire_def new_controller_def processFrame_ac_def
      processDetection_ac_def classify_ac_def defaultConfig_def MIN_PITCH_def MAX_PITCH_def
      clamp_def rescale_def stabilize_ac_def pushDetection_def maxDetections_ac_def median_single
      dynamicSmoothing_ac_def emit_def)

theorem emitted_value_in_unit_interval_witness:
  "0 \<le> smoothing defaultConfig \<and> smoothing defaultConfig \<le> 1
   \<and> minPitch defaultConfig \<noteq> maxPitch defaultConfig
   \<and> Emitted 0.925
        \<in> set (fst (run defaultConfig [Start (Granted 44100) (Some (550, 0.9))] new_yin_controller))
   \<and> Emitted 0.775
        \<in> set (fst (run_ac defaultConfig [Start (Granted 44100) (Some (Finite 550))] new_controller))
   \<and> (0 :: real) \<le> 0.925 \<and> (0.925 :: real) \<le> 1 \<and> (0 :: real) \<le> 0.775 \<and> (0.775 :: real) \<le> 1"
proof -
  have c: "0 \<le> smoothing defaultConfig" "smoothing defaultConfig \<le> 1"
    "minPitch defaultConfig \<noteq> maxPitch defaultConfig"
    by (simp_all add: defaultConfig_def MIN_PITCH_def MAX_PITCH_def)
  have e: "Emitted 0.925
        \<in> set (fst (run defaultConfig [Start (Granted 44100) (Some (550, 0.9))] new_yin_controller))"
    "Emitted 0.775
        \<in> set (fst (run_ac defaultConfig [Start (Granted 44100) (Some (Finite 550))] new_controller))"
    by (simp_all only: first_frame_yin first_frame_ac list.set insert_iff simp_thms)
  from emitted_value_in_unit_interval [OF c, where v = "0.925"
      and events = "[Start (Granted 44100) (Some (550, 0.9))]"] e(1)
  have "(0 :: real) \<le> 0.925 \<and> (0.925 :: real) \<le> 1" by blast
  moreover
  from emitted_value_in_unit_interval [OF c, where v = "0.775"
      and events_ac = "[Start (Granted 44100) (Some (Finite 550))]"] e(2)
  have "(0 :: real) \<le> 0.775 \<and> (0.775 :: real) \<le> 1" by blast
  ultimately show ?thesis using c e by blast
qed

section \<open>Start and stop\<close>

lemma session_yin:
  "snd (start defaultConfig (Granted 44100) (Some (550, 0.9)) new_yin_controller)
   = \<lparr>audioContext = Some 44100, analyser = Some 2048, dataArray = Some 2048, isRunning = True,
      normalizedValue = 0.925, fallbackTimer = 0, recentDetections = [1],
      lastFrequency = Some 550, silenceFrames = 0\<rparr>"
  by (simp add: start_def acquire_def new_yin_controller_def processFrame_def processDetection_def
      classify_def defaultConfig_def MIN_PITCH_def MAX_PITCH_def clamp_def rescale_def
      stabilize_def pushDetection_def maxDetections_def median_single dynamicSmoothing_def emit_def)

text \<open>
  A session with one voiced frame at 550 Hz, stopped and started again: the state before
  the first frame of the second session is not the initial one.
\<close>

theorem restart_keeps_previous_state:
  "acquire (Granted 48000)
     (stop (snd (start defaultConfig (Granted 44100) (Some (550, 0.9)) new_yin_controller)))
   = Acquired \<lparr>audioContext = Some 48000, analyser = Some 2048, dataArray = Some 2048,
        isRunning = True, normalizedValue = 0.925, fallbackTimer = 0, recentDetections = [1],
        lastFrequency = Some 550, silenceFrames = 0\<rparr>
   \<and> (0.925 :: real) \<noteq> 0.5 \<and> [1 :: real] \<noteq> [] \<and> Some (550 :: real) \<noteq> None"
  by (simp add: session_yin acquire_def stop_def)

text \<open>
  Claim C2, amended. A stop followed by a start sets \<open>isRunning\<close> and the audio
  resources (context, analyser, sample buffer) and nothing else: before the first frame of
  the new session the smoothed value, the detection history, \<open>lastFrequency\<close> and the
  silence and fallback counters are what the previous session left. The initial values
  (0.5, empty history, no last frequency, counters 0) are those of a newly constructed
  controller.
\<close>

theorem restart_preserves_state:
  fixes s :: yin_controller and t :: controller
  shows "acquire (Granted sampleRate) (stop s)
           = Acquired (s\<lparr>audioContext := Some sampleRate, analyser := Some 2048,
                          dataArray := Some 2048, isRunning := True\<rparr>)
         \<and> acquire (Granted sampleRate) (stop t)
           = Acquired (t\<lparr>audioContext := Some sampleRate, analyser := Some 2048,
                          dataArray := Some 2048, isRunning := True\<rparr>)
         \<and> normalizedValue (s\<lparr>audioContext := Some sampleRate, analyser := Some 2048,
                          dataArray := Some 2048, isRunning := True\<rparr>) = normalizedValue s
         \<and> recentDetections (s\<lparr>audioContext := Some sampleRate, analyser := Some 2048,
                          dataArray := Some 2048, isRunning := True\<rparr>) = recentDetections s
         \<and> lastFrequency (s\<lparr>audioContext := Some sampleRate, analyser := Some 2048,
                          dataArray := Some 2048, isRunning := True\<rparr>) = lastFrequency s
         \<and> silenceFrames (s\<lparr>audioContext := Some sampleRate, analyser := Some 2048,
                          dataArray := Some 2048, isRunning := True\<rparr>) = silenceFrames s
         \<and> fallbackTimer (s\<lparr>audioContext := Some sampleRate, analyser := Some 2048,
                          dataArray := Some 2048, isRunning := True\<rparr>) = fallbackTimer s
         \<and> normalizedValue new_yin_controller = 0.5 \<and> recentDetections new_yin_controller = []
         \<and> lastFrequency new_yin_controller = None \<and> silenceFrames new_yin_controller = 0
         \<and> fallbackTimer new_yin_controller = 0
         \<and> normalizedValue new_controller = 0.5 \<and> recentDetections new_controller = []
         \<and> fallbackTimer new_controller = 0"
  by (simp add: acquire_def stop_def new_yin_controller_def new_controller_def)










section \<open>A negative frequency from the YIN detector\<close>

lemma cos_third_turns:
  "cos (pi / 3) = 1 / 2" "cos (2 * pi / 3) = - (1 / 2)" "cos (4 * pi / 3) = - (1 / 2)"
  "cos (5 * pi / 3) = 1 / 2" "cos (3 * pi / 2) = 0"
proof -
  show a: "cos (pi / 3) = 1 / 2" by (rule cos_60)
  have "cos (2 * pi / 3) = cos (pi - pi / 3)" by simp
  also have "\<dots> = - cos (pi / 3)" by (rule cos_pi_minus)
  finally show b: "cos (2 * pi / 3) = - (1 / 2)" using a by simp
  have "cos (4 * pi / 3) = cos (pi / 3 + pi)" by simp
  also have "\<dots> = - cos (pi / 3)" by (simp only: cos_periodic_pi)
  finally show "cos (4 * pi / 3) = - (1 / 2)" using a by simp
  have "cos (5 * pi / 3) = cos (2 * pi - pi / 3)" by simp
  also have "\<dots> = cos (pi / 3)" by (simp only: cos_2pi_minus)
  finally show "cos (5 * pi / 3) = 1 / 2" using a by simp
  have "cos (3 * pi / 2) = cos (pi / 2 + pi)" by simp
  also have "\<dots> = - cos (pi / 2)" by (simp only: cos_periodic_pi)
  finally show "cos (3 * pi / 2) = 0" by simp
qed

lemma window_example:
  "hannWindow [0, 0, 1, 1 / 2, 0, 0, - (3 / 4), 0, 1 / 4, 1 / 4, 3 / 4, 0, 0]
   = [0, 0, 1 / 4, 1 / 4, 0, 0, - (3 / 4), 0, 3 / 16, 1 / 8, 3 / 16, 0, 0]"
  by (simp add: hannWindow_def cos_third_turns upt_rec [of _ "numeral _"] upt_rec [of 0 "Suc _"])


lemma differences_example:
  "map (difference [0, 0, 1 / 4, 1 / 4, 0, 0, - (3 / 4), 0, 3 / 16, 1 / 8, 3 / 16, 0, 0]) [Suc 0..<12]
   = [85 / 64, 225 / 128, 515 / 256, 519 / 256, 159 / 128, 151 / 128, 7 / 128, 15 / 128,
      45 / 256, 25 / 256, 0]"
  by (simp add: difference_def upt_rec [of _ "numeral _"] upt_rec [of 0 "Suc _"] upt_rec [of "Suc _" "numeral _"])

lemma yinBuffer_example:
  "yinBufferOf [0, 0, 1 / 4, 1 / 4, 0, 0, - (3 / 4), 0, 3 / 16, 1 / 8, 3 / 16, 0, 0] 12
   = [0, 1, 90 / 79, 103 / 87, 173 / 152, 265 / 357, 453 / 611, 49 / 1229, 30 / 311,
      405 / 2533, 125 / 1279, 0]"
  by (simp add: yinBufferOf_def differences_example Let_def)

lemma search_negative_example:
  "search [0, 1, 90 / 79, 103 / 87, 173 / 152, 265 / 357, 453 / 611, 49 / 1229, 30 / 311,
      405 / 2533, 125 / 1279, 0] 12 8 = Some 8"
  by (simp add: search.simps descend.simps threshold_def)

lemma interpolate_example:
  "interpolate [0, 1, 90 / 79, 103 / 87, 173 / 152, 265 / 357, 453 / 611, 49 / 1229, 30 / 311,
      405 / 2533, 125 / 1279, 0] 12 8 = - (2586929 / 3307831)"
  by (simp add: interpolate_def Let_def)

text \<open>
  Claim C5 says that an estimate of the YIN detector has a frequency above 0 and a
  confidence in [0, 1]. The detector evaluated on a buffer of 13 samples at 4400 Hz with
  the default pitch range: the search starts at \<open>tauMin = 8\<close>, on the rising side of a dip
  whose minimum lies at 7, below the search range; the parabola through the values at 7,
  8 and 9 has its vertex at a negative lag, and the returned frequency is negative.
\<close>

theorem yinPitch_negative_frequency:
  "yinPitch [0, 0, 1, 1 / 2, 0, 0, - (3 / 4), 0, 1 / 4, 1 / 4, 3 / 4, 0, 0] 4400 110 550
   = Some (- (14554456400 / 2586929), 281 / 311)
   \<and> - (14554456400 / 2586929) < (0 :: real)"
  by (simp add: yinPitch_def window_example tauMinOf_def tauMaxOf_def differences_example
      yinBuffer_example yinSelect_def search_negative_example interpolate_example
      probabilityThreshold_def Let_def)

section \<open>A run of frames without detection\<close>

lemma stabilize_fields:
  "isRunning (stabilize cfg x t) = isRunning t \<and> analyser (stabilize cfg x t) = analyser t
   \<and> audioContext (stabilize cfg x t) = audioContext t
   \<and> silenceFrames (stabilize cfg x t) = silenceFrames t
   \<and> fallbackTimer (stabilize cfg x t) = fallbackTimer t
   \<and> lastFrequency (stabilize cfg x t) = lastFrequency t"
  by (simp add: stabilize_def Let_def split: option.splits)

lemma classify_held:
  assumes "lastFrequency t = Some f" and "f \<noteq> 0" and "silenceFrames t < 6"
  shows "classify cfg None t = (Some (rescale cfg f), t\<lparr>silenceFrames := silenceFrames t + 1\<rparr>)"
  using assms by (simp add: classify_def)

lemma classify_wait:
  assumes "lastFrequency t = None \<or> 6 \<le> silenceFrames t" and "fallbackTimer t + 1 \<le> 12"
  shows "classify cfg None t
         = (None, t\<lparr>silenceFrames := silenceFrames t + 1, fallbackTimer := fallbackTimer t + 1\<rparr>)"
  using assms by (auto simp: classify_def Let_def split: option.splits)

lemma classify_fallback:
  assumes "lastFrequency t = None \<or> 6 \<le> silenceFrames t" and "12 < fallbackTimer t + 1"
  shows "classify cfg None t
         = (Some 0.5, t\<lparr>silenceFrames := silenceFrames t + 1, fallbackTimer := fallbackTimer t + 1,
                         lastFrequency := None\<rparr>)"
  using assms by (auto simp: classify_def Let_def split: option.splits)

lemma processFrame_running:
  assumes "isRunning t" and "analyser t \<noteq> None" and "audioContext t \<noteq> None"
  shows "processFrame cfg d t = processDetection cfg d t"
  using assms by (auto simp: processFrame_def split: option.splits)

lemma silent_counters:
  assumes "isRunning s" and "analyser s \<noteq> None" and "audioContext s \<noteq> None"
    and "lastFrequency s = Some f" and "f \<noteq> 0" and "silenceFrames s = 0" and "fallbackTimer s = 0"
  shows "isRunning (silent cfg k s) \<and> analyser (silent cfg k s) \<noteq> None
         \<and> audioContext (silent cfg k s) \<noteq> None
         \<and> silenceFrames (silent cfg k s) = k \<and> fallbackTimer (silent cfg k s) = k - 6
         \<and> lastFrequency (silent cfg k s) = (if k < 19 then Some f else None)"
proof (induction k)
  case 0
  with assms show ?case by simp
next
  case (Suc k)
  let ?t = "silent cfg k s"
  have run: "silent cfg (Suc k) s = snd (processDetection cfg None ?t)"
    using Suc processFrame_running [of ?t cfg None] by simp
  consider (held) "k < 6" | (wait) "6 \<le> k" "k < 18" | (fallback) "18 \<le> k"
    by linarith
  then show ?case
  proof cases
    case held
    with Suc assms(5) have "classify cfg None ?t
         = (Some (rescale cfg f), ?t\<lparr>silenceFrames := silenceFrames ?t + 1\<rparr>)"
      by (intro classify_held) simp_all
    with run Suc held show ?thesis
      by (simp add: processDetection_def Let_def stabilize_fields)
  next
    case wait
    with Suc have "classify cfg None ?t
         = (None, ?t\<lparr>silenceFrames := silenceFrames ?t + 1, fallbackTimer := fallbackTimer ?t + 1\<rparr>)"
      by (intro classify_wait) simp_all
    with run Suc wait show ?thesis
      by (simp add: processDetection_def Let_def)
  next
    case fallback
    with Suc have "classify cfg None ?t
         = (Some 0.5, ?t\<lparr>silenceFrames := silenceFrames ?t + 1, fallbackTimer := fallbackTimer ?t + 1,
                         lastFrequency := None\<rparr>)"
      by (intro classify_fallback) (simp_all split: if_splits)
    with run Suc fallback show ?thesis
      by (simp add: processDetection_def Let_def stabilize_fields)
  qed
qed


lemma processDetection_emits:
  "fst (processDetection cfg d t) = emit cfg (snd (processDetection cfg d t))"
  by (simp add: processDetection_def Let_def split: prod.splits option.splits)

lemma silent_frame:
  assumes "isRunning s" and "analyser s \<noteq> None" and "audioContext s \<noteq> None"
    and "lastFrequency s = Some f" and "f \<noteq> 0" and "silenceFrames s = 0" and "fallbackTimer s = 0"
  shows "emittedAt cfg (Suc k) s = emit cfg (silent cfg (Suc k) s)"
    and "k < 6 \<Longrightarrow> rawAt cfg (Suc k) s = Some (rescale cfg f)
           \<and> silent cfg (Suc k) s
             = stabilize cfg (rescale cfg f) ((silent cfg k s)\<lparr>silenceFrames := Suc k\<rparr>)"
    and "6 \<le> k \<Longrightarrow> k < 18 \<Longrightarrow> rawAt cfg (Suc k) s = None
           \<and> silent cfg (Suc k) s
             = (silent cfg k s)\<lparr>silenceFrames := Suc k, fallbackTimer := Suc k - 6\<rparr>"
    and "18 \<le> k \<Longrightarrow> rawAt cfg (Suc k) s = Some 0.5
           \<and> silent cfg (Suc k) s
             = stabilize cfg 0.5 ((silent cfg k s)\<lparr>silenceFrames := Suc k,
                 fallbackTimer := Suc k - 6, lastFrequency := None\<rparr>)"
proof -
  let ?t = "silent cfg k s"
  note c = silent_counters [OF assms, of cfg k]
  have run: "processFrame cfg None ?t = processDetection cfg None ?t"
    using c processFrame_running [of ?t cfg None] by simp
  show "emittedAt cfg (Suc k) s = emit cfg (silent cfg (Suc k) s)"
    using processDetection_emits [of cfg None ?t] by (simp add: emittedAt_def run)
  show "rawAt cfg (Suc k) s = Some (rescale cfg f)
           \<and> silent cfg (Suc k) s
             = stabilize cfg (rescale cfg f) (?t\<lparr>silenceFrames := Suc k\<rparr>)" if "k < 6"
  proof -
    from c assms(5) that have "classify cfg None ?t
         = (Some (rescale cfg f), ?t\<lparr>silenceFrames := silenceFrames ?t + 1\<rparr>)"
      by (intro classify_held) simp_all
    with c show ?thesis
      by (simp add: rawAt_def run processDetection_def Let_def)
  qed
  show "rawAt cfg (Suc k) s = None
           \<and> silent cfg (Suc k) s
             = ?t\<lparr>silenceFrames := Suc k, fallbackTimer := Suc k - 6\<rparr>" if "6 \<le> k" "k < 18"
  proof -
    from c that have "classify cfg None ?t
         = (None, ?t\<lparr>silenceFrames := silenceFrames ?t + 1, fallbackTimer := fallbackTimer ?t + 1\<rparr>)"
      by (intro classify_wait) simp_all
    moreover from that have "Suc (k - 6) = k - 5" by simp
    ultimately show ?thesis using c that
      by (simp add: rawAt_def run processDetection_def Let_def)
  qed
  show "rawAt cfg (Suc k) s = Some 0.5
           \<and> silent cfg (Suc k) s
             = stabilize cfg 0.5 (?t\<lparr>silenceFrames := Suc k,
                 fallbackTimer := Suc k - 6, lastFrequency := None\<rparr>)" if "18 \<le> k"
  proof -
    from c that have "classify cfg None ?t
         = (Some 0.5, ?t\<lparr>silenceFrames := silenceFrames ?t + 1, fallbackTimer := fallbackTimer ?t + 1,
                         lastFrequency := None\<rparr>)"
      by (intro classify_fallback) (simp_all split: if_splits)
    moreover from that have "Suc (k - 6) = k - 5" by simp
    ultimately show ?thesis using c that
      by (simp add: rawAt_def run processDetection_def Let_def)
  qed
qed

lemma stabilize_history:
  "recentDetections (stabilize cfg x t) = pushDetection maxDetections x (recentDetections t)"
  by (simp add: stabilize_def Let_def split: option.splits)

lemma pushDetection_length:
  "length h \<le> cap \<Longrightarrow> 0 < cap \<Longrightarrow> length (pushDetection cap x h) = min (Suc (length h)) cap"
  by (auto simp: pushDetection_def Let_def)

lemma held_history_length:
  assumes "isRunning s" and "analyser s \<noteq> None" and "audioContext s \<noteq> None"
    and "lastFrequency s = Some f" and "f \<noteq> 0" and "silenceFrames s = 0" and "fallbackTimer s = 0"
    and "length (recentDetections s) \<le> maxDetections"
  shows "k \<le> 6 \<Longrightarrow> length (recentDetections (silent cfg k s))
           = min (length (recentDetections s) + k) maxDetections"
proof (induction k)
  case 0
  with assms(8) show ?case by simp
next
  case (Suc k)
  then have k: "k < 6" by simp
  from silent_frame(2) [OF assms(1-7) k, of cfg] Suc show ?case
    by (simp add: stabilize_history pushDetection_length maxDetections_def)
qed

lemma waiting_keeps_value:
  assumes "isRunning s" and "analyser s \<noteq> None" and "audioContext s \<noteq> None"
    and "lastFrequency s = Some f" and "f \<noteq> 0" and "silenceFrames s = 0" and "fallbackTimer s = 0"
  shows "6 \<le> k \<Longrightarrow> k \<le> 18 \<Longrightarrow>
         normalizedValue (silent cfg k s) = normalizedValue (silent cfg 6 s)
         \<and> recentDetections (silent cfg k s) = recentDetections (silent cfg 6 s)"
proof (induction k)
  case 0
  then show ?case by simp
next
  case (Suc k)
  show ?case
  proof (cases "k < 6")
    case True
    with Suc.prems have "Suc k = 6" by simp
    then show ?thesis by simp
  next
    case False
    with Suc.prems have k: "6 \<le> k" "k < 18" by simp_all
    from silent_frame(3) [OF assms k, of cfg] Suc.IH k show ?thesis by simp
  qed
qed


lemma median_three_of_five: "median [a, b, c, c, c] = Some c"
  by (auto simp: median_def)

lemma stabilize_value:
  assumes "median (recentDetections (stabilize cfg x t)) = Some m"
  shows "normalizedValue (stabilize cfg x t)
         = normalizedValue t + (m - normalizedValue t) * dynamicSmoothing cfg \<bar>m - normalizedValue t\<bar>"
  using assms by (simp add: stabilize_history) (simp add: stabilize_def Let_def)

lemma list_of_length_five:
  assumes "length xs = 5"
  obtains x1 x2 x3 x4 x5 where "xs = [x1, x2, x3, x4, x5]"
proof -
  from assms obtain x1 r1 where 1: "xs = x1 # r1" "length r1 = 4" by (cases xs) auto
  then obtain x2 r2 where 2: "r1 = x2 # r2" "length r2 = 3" by (cases r1) auto
  then obtain x3 r3 where 3: "r2 = x3 # r3" "length r3 = 2" by (cases r2) auto
  then obtain x4 r4 where 4: "r3 = x4 # r4" "length r4 = 1" by (cases r3) auto
  then obtain x5 where 5: "r4 = [x5]" by (cases r4) auto
  from 1 2 3 4 5 that show thesis by simp
qed

lemma fallback_history:
  assumes "isRunning s" and "analyser s \<noteq> None" and "audioContext s \<noteq> None"
    and "lastFrequency s = Some f" and "f \<noteq> 0" and "silenceFrames s = 0" and "fallbackTimer s = 0"
    and "length (recentDetections s) \<le> maxDetections"
  shows "21 \<le> k \<Longrightarrow> \<exists>a b. recentDetections (silent cfg k s) = [a, b, 0.5, 0.5, 0.5]"
proof (induction k)
  case 0
  then show ?case by simp
next
  case (Suc k)
  note step = silent_frame(4) [OF assms(1-7), of _ cfg]
  show ?case
  proof (cases "k = 20")
    case True
    have "length (recentDetections (silent cfg 6 s)) = 5"
      using held_history_length [OF assms, of 6 cfg] assms(8) by (simp add: maxDetections_def)
    then have "length (recentDetections (silent cfg 18 s)) = 5"
      using waiting_keeps_value [OF assms(1-7), of 18 cfg] by simp
    then obtain x1 x2 x3 x4 x5 where h: "recentDetections (silent cfg 18 s) = [x1, x2, x3, x4, x5]"
      by (rule list_of_length_five)
    have 19: "recentDetections (silent cfg 19 s) = [x2, x3, x4, x5, 0.5]"
      using step [of 18] h
      by (simp add: stabilize_history pushDetection_def maxDetections_def eval_nat_numeral)
    have 20: "recentDetections (silent cfg 20 s) = [x3, x4, x5, 0.5, 0.5]"
      using step [of 19] 19
      by (simp add: stabilize_history pushDetection_def maxDetections_def eval_nat_numeral)
    have "recentDetections (silent cfg 21 s) = [x4, x5, 0.5, 0.5, 0.5]"
      using step [of 20] 20
      by (simp add: stabilize_history pushDetection_def maxDetections_def eval_nat_numeral)
    with True have "recentDetections (silent cfg (Suc k) s) = [x4, x5, 0.5, 0.5, 0.5]"
      by (simp add: eval_nat_numeral)
    then show ?thesis by blast
  next
    case False
    with Suc.prems have k: "21 \<le> k" by simp
    with Suc.IH obtain a b where "recentDetections (silent cfg k s) = [a, b, 0.5, 0.5, 0.5]"
      by blast
    with step [of k] k have "recentDetections (silent cfg (Suc k) s) = [b, 0.5, 0.5, 0.5, 0.5]"
      by (simp add: stabilize_history pushDetection_def maxDetections_def)
    then show ?thesis by blast
  qed
qed

lemma fallback_decay:
  assumes "isRunning s" and "analyser s \<noteq> None" and "audioContext s \<noteq> None"
    and "lastFrequency s = Some f" and "f \<noteq> 0" and "silenceFrames s = 0" and "fallbackTimer s = 0"
    and "length (recentDetections s) \<le> maxDetections" and "smoothing cfg \<le> 1" and "21 \<le> k"
  shows "\<bar>normalizedValue (silent cfg k s) - 0.5\<bar>
         \<le> 0.82 * \<bar>normalizedValue (silent cfg (k - 1) s) - 0.5\<bar>"
proof -
  from assms(10) obtain j where j: "k = Suc j" "18 \<le> j" by (cases k) simp_all
  let ?t = "(silent cfg j s)\<lparr>silenceFrames := Suc j, fallbackTimer := Suc j - 6, lastFrequency := None\<rparr>"
  let ?v = "normalizedValue (silent cfg j s)"
  have st: "silent cfg k s = stabilize cfg 0.5 ?t"
    using silent_frame(4) [OF assms(1-7) j(2), of cfg] j(1) by simp
  from fallback_history [OF assms(1-8) assms(10), of cfg]
  have "median (recentDetections (silent cfg k s)) = Some 0.5"
    by (auto simp: median_three_of_five)
  from stabilize_value [of cfg "0.5" ?t "0.5"] this st
  have v: "normalizedValue (silent cfg k s) = ?v + (0.5 - ?v) * dynamicSmoothing cfg \<bar>0.5 - ?v\<bar>"
    by simp
  define a where "a = dynamicSmoothing cfg \<bar>0.5 - ?v\<bar>"
  have a: "0.18 \<le> a" "a \<le> 1"
    using assms(9) by (auto simp: a_def dynamicSmoothing_def)
  have "normalizedValue (silent cfg k s) - 0.5 = (1 - a) * (?v - 0.5)"
    unfolding v a_def [symmetric] by (simp add: field_simps)
  then have "\<bar>normalizedValue (silent cfg k s) - 0.5\<bar> = (1 - a) * \<bar>?v - 0.5\<bar>"
    using a(2) by (simp add: abs_mult)
  also have "\<dots> \<le> 0.82 * \<bar>?v - 0.5\<bar>"
    using a(1) by (intro mult_right_mono) simp_all
  finally show ?thesis using j(1) by simp
qed


text \<open>
  Claim C4, amended. A running controller of the YIN variant with \<open>lastFrequency\<close> set and
  both counters at 0 (the state a voiced frame leaves) is fed frames without detection.
  Frames 1 to 6 feed the held normalized value, the rescaled \<open>lastFrequency\<close>, to the
  stabilizer and emit its output. Frames 7 to 18 produce no raw value: the history and
  the smoothed value stay as frame 6 left them, and that value is emitted. From frame 19
  on the raw value 0.5 is fed to the stabilizer and its output emitted; from frame 21 on
  the median of the history is 0.5 and each emitted value is closer to 0.5 than the one
  before, by a factor of at most 0.82. The hold limit 6 and the grace 12 are constants of
  the code.
\<close>

theorem silent_frames_hold_wait_fallback:
  assumes "isRunning s" and "analyser s \<noteq> None" and "audioContext s \<noteq> None"
    and "lastFrequency s = Some f" and "f \<noteq> 0" and "silenceFrames s = 0" and "fallbackTimer s = 0"
    and "length (recentDetections s) \<le> maxDetections"
    and "onValue cfg" and "smoothing cfg \<le> 1" and "minPitch cfg \<noteq> maxPitch cfg"
  shows "(1 \<le> k \<and> k \<le> 6 \<longrightarrow>
            rawAt cfg k s = Some (rescale cfg f)
            \<and> silent cfg k s
              = stabilize cfg (rescale cfg f) ((silent cfg (k - 1) s)\<lparr>silenceFrames := k\<rparr>)
            \<and> emittedAt cfg k s = Emitted (normalizedValue (silent cfg k s)))
         \<and> (7 \<le> k \<and> k \<le> 18 \<longrightarrow>
            rawAt cfg k s = None
            \<and> recentDetections (silent cfg k s) = recentDetections (silent cfg 6 s)
            \<and> emittedAt cfg k s = Emitted (normalizedValue (silent cfg 6 s)))
         \<and> (19 \<le> k \<longrightarrow>
            rawAt cfg k s = Some 0.5
            \<and> silent cfg k s
              = stabilize cfg 0.5 ((silent cfg (k - 1) s)\<lparr>silenceFrames := k,
                  fallbackTimer := k - 6, lastFrequency := None\<rparr>)
            \<and> emittedAt cfg k s = Emitted (normalizedValue (silent cfg k s)))
         \<and> (21 \<le> k \<longrightarrow>
            \<bar>normalizedValue (silent cfg k s) - 0.5\<bar>
              \<le> 0.82 * \<bar>normalizedValue (silent cfg (k - 1) s) - 0.5\<bar>)"
proof (cases k)
  case 0
  then show ?thesis by simp
next
  case (Suc j)
  note pre = assms(1-7)
  have e: "emittedAt cfg k s = Emitted (normalizedValue (silent cfg k s))"
    using silent_frame(1) [OF pre, of cfg j] assms(9) Suc by (simp add: emit_def)
  have held: "rawAt cfg k s = Some (rescale cfg f)
            \<and> silent cfg k s
              = stabilize cfg (rescale cfg f) ((silent cfg (k - 1) s)\<lparr>silenceFrames := k\<rparr>)"
    if "k \<le> 6"
    using silent_frame(2) [OF pre, of j cfg] that Suc by simp
  have wait: "rawAt cfg k s = None
            \<and> recentDetections (silent cfg k s) = recentDetections (silent cfg 6 s)
            \<and> normalizedValue (silent cfg k s) = normalizedValue (silent cfg 6 s)"
    if "7 \<le> k" "k \<le> 18"
    using silent_frame(3) [OF pre, of j cfg] waiting_keeps_value [OF pre, of k cfg] that Suc
    by simp
  have fallback: "rawAt cfg k s = Some 0.5
            \<and> silent cfg k s
              = stabilize cfg 0.5 ((silent cfg (k - 1) s)\<lparr>silenceFrames := k,
                  fallbackTimer := k - 6, lastFrequency := None\<rparr>)"
    if "19 \<le> k"
    using silent_frame(4) [OF pre, of j cfg] that Suc by simp
  have decay: "\<bar>normalizedValue (silent cfg k s) - 0.5\<bar>
              \<le> 0.82 * \<bar>normalizedValue (silent cfg (k - 1) s) - 0.5\<bar>"
    if "21 \<le> k"
    using fallback_decay [OF assms(1-8) assms(10) that] .
  from e held wait fallback decay show ?thesis by simp
qed

lemma median_replicate:
  assumes "0 < k"
  shows "median (replicate k c) = Some c"
proof -
  have s: "sort (replicate k c) = replicate k c"
    by (simp add: sorted_sort_id sorted_replicate)
  show ?thesis
  proof (cases "k mod 2 = 0")
    case True
    with assms have "2 \<le> k" by presburger
    then have "k div 2 \<noteq> 0" "k div 2 < k" "k div 2 - 1 < k" by simp_all
    with True show ?thesis
      unfolding median_def s by (simp add: Let_def)
  next
    case False
    moreover have "k div 2 < k" using assms by simp
    ultimately show ?thesis
      unfolding median_def s by (simp add: Let_def)
  qed
qed

lemma stabilize_one:
  assumes "recentDetections t = replicate n 1" and "n \<le> 5" and "normalizedValue t = v"
    and "1 - v \<le> 0.15" and "v \<le> 1"
  shows "recentDetections (stabilize defaultConfig 1 t) = replicate (min (Suc n) 5) 1
         \<and> normalizedValue (stabilize defaultConfig 1 t) = v + (1 - v) * 0.25"
proof -
  define h :: "real list" where "h = replicate (min (Suc n) 5) 1"
  have "pushDetection maxDetections 1 (replicate n 1) = replicate (min (Suc n) 5) (1 :: real)"
  proof (cases "n = 5")
    case True
    then show ?thesis
      by (simp add: pushDetection_def maxDetections_def replicate_append_same)
  next
    case False
    with assms(2) have "min (Suc n) 5 = Suc n" by simp
    with False assms(2) show ?thesis
      by (simp add: pushDetection_def maxDetections_def replicate_append_same)
  qed
  then have p: "pushDetection maxDetections 1 (recentDetections t) = h"
    by (simp only: assms(1) h_def)
  have m: "median h = Some 1"
    unfolding h_def by (rule median_replicate) simp
  have d: "dynamicSmoothing defaultConfig \<bar>1 - v\<bar> = 0.25"
    using assms(4,5) by (simp add: dynamicSmoothing_def defaultConfig_def)
  have "recentDetections (stabilize defaultConfig 1 t) = h
         \<and> normalizedValue (stabilize defaultConfig 1 t) = v + (1 - v) * 0.25"
    by (simp add: stabilize_def Let_def assms(3) p m d)
  then show ?thesis
    by (simp only: h_def)
qed

lemma held_ones:
  assumes "isRunning s" and "analyser s \<noteq> None" and "audioContext s \<noteq> None"
    and "lastFrequency s = Some 550" and "silenceFrames s = 0" and "fallbackTimer s = 0"
    and "k < 6" and "k' = Suc k"
    and "recentDetections (silent defaultConfig k s) = replicate n 1" and "n \<le> 5"
    and "normalizedValue (silent defaultConfig k s) = v" and "1 - v \<le> 0.15" and "v \<le> 1"
    and "n' = min (Suc n) 5" and "v' = v + (1 - v) * 0.25"
  shows "recentDetections (silent defaultConfig k' s) = replicate n' 1
         \<and> normalizedValue (silent defaultConfig k' s) = v'"
proof -
  have r: "rescale defaultConfig 550 = 1"
    by (simp add: rescale_def defaultConfig_def MIN_PITCH_def MAX_PITCH_def clamp_def)
  have nz: "(550 :: real) \<noteq> 0" by simp
  let ?t = "(silent defaultConfig k s)\<lparr>silenceFrames := Suc k\<rparr>"
  from silent_frame(2) [OF assms(1-4) nz assms(5,6,7), of defaultConfig]
  have e: "silent defaultConfig k' s = stabilize defaultConfig 1 ?t"
    unfolding r assms(8) by blast
  have "recentDetections ?t = replicate n 1" "normalizedValue ?t = v"
    using assms(9,11) by simp_all
  from stabilize_one [OF this(1) assms(10) this(2) assms(12,13)] show ?thesis
    unfolding e assms(14,15) .
qed

lemma voiced_then_silent:
  "normalizedValue (silent defaultConfig 1
     (snd (start defaultConfig (Granted 44100) (Some (550, 0.9)) new_yin_controller))) = 151 / 160"
  "normalizedValue (silent defaultConfig 6
     (snd (start defaultConfig (Granted 44100) (Some (550, 0.9)) new_yin_controller))) = 161653 / 163840"
proof -
  let ?s = "snd (start defaultConfig (Granted 44100) (Some (550, 0.9)) new_yin_controller)"
  have pre: "isRunning ?s" "analyser ?s \<noteq> None" "audioContext ?s \<noteq> None"
    "lastFrequency ?s = Some 550" "silenceFrames ?s = 0" "fallbackTimer ?s = 0"
    by (simp_all add: session_yin)
  note step = held_ones [OF pre]
  have 0: "recentDetections (silent defaultConfig 0 ?s) = replicate 1 1
           \<and> normalizedValue (silent defaultConfig 0 ?s) = 37 / 40"
    by (simp add: session_yin)
  have 1: "recentDetections (silent defaultConfig 1 ?s) = replicate 2 1
           \<and> normalizedValue (silent defaultConfig 1 ?s) = 151 / 160"
    by (rule step [where k = 0 and n = 1 and v = "37 / 40"]) (use 0 in \<open>simp_all del: silent.simps\<close>)
  have 2: "recentDetections (silent defaultConfig 2 ?s) = replicate 3 1
           \<and> normalizedValue (silent defaultConfig 2 ?s) = 613 / 640"
    by (rule step [where k = 1 and n = 2 and v = "151 / 160"]) (use 1 in \<open>simp_all del: silent.simps\<close>)
  have 3: "recentDetections (silent defaultConfig 3 ?s) = replicate 4 1
           \<and> normalizedValue (silent defaultConfig 3 ?s) = 2479 / 2560"
    by (rule step [where k = 2 and n = 3 and v = "613 / 640"]) (use 2 in \<open>simp_all del: silent.simps\<close>)
  have 4: "recentDetections (silent defaultConfig 4 ?s) = replicate 5 1
           \<and> normalizedValue (silent defaultConfig 4 ?s) = 9997 / 10240"
    by (rule step [where k = 3 and n = 4 and v = "2479 / 2560"]) (use 3 in \<open>simp_all del: silent.simps\<close>)
  have 5: "recentDetections (silent defaultConfig 5 ?s) = replicate 5 1
           \<and> normalizedValue (silent defaultConfig 5 ?s) = 40231 / 40960"
    by (rule step [where k = 4 and n = 5 and v = "9997 / 10240"]) (use 4 in \<open>simp_all del: silent.simps\<close>)
  have 6: "recentDetections (silent defaultConfig 6 ?s) = replicate 5 1
           \<and> normalizedValue (silent defaultConfig 6 ?s) = 161653 / 163840"
    by (rule step [where k = 5 and n = 5 and v = "40231 / 40960"]) (use 5 in \<open>simp_all del: silent.simps\<close>)
  from 1 show "normalizedValue (silent defaultConfig 1 ?s) = 151 / 160" by blast
  from 6 show "normalizedValue (silent defaultConfig 6 ?s) = 161653 / 163840" by blast
qed


text \<open>
  After one voiced frame at 550 Hz from a new controller with the default configuration:
  the first silent frame emits 151/160, not the held value 1; frames 16, 17 and 18 emit
  the same value, with no raw value at frames 17 and 18; the first neutral raw value
  comes at frame 19.
\<close>

theorem no_neutral_value_before_frame_19:
  "rescale defaultConfig 550 = 1
   \<and> lastFrequency (snd (start defaultConfig (Granted 44100) (Some (550, 0.9)) new_yin_controller))
       = Some 550
   \<and> emittedAt defaultConfig 1
        (snd (start defaultConfig (Granted 44100) (Some (550, 0.9)) new_yin_controller))
       = Emitted (151 / 160)
   \<and> emittedAt defaultConfig 16
        (snd (start defaultConfig (Granted 44100) (Some (550, 0.9)) new_yin_controller))
       = Emitted (161653 / 163840)
   \<and> rawAt defaultConfig 17
        (snd (start defaultConfig (Granted 44100) (Some (550, 0.9)) new_yin_controller)) = None
   \<and> emittedAt defaultConfig 17
        (snd (start defaultConfig (Granted 44100) (Some (550, 0.9)) new_yin_controller))
       = Emitted (161653 / 163840)
   \<and> rawAt defaultConfig 18
        (snd (start defaultConfig (Granted 44100) (Some (550, 0.9)) new_yin_controller)) = None
   \<and> emittedAt defaultConfig 18
        (snd (start defaultConfig (Granted 44100) (Some (550, 0.9)) new_yin_controller))
       = Emitted (161653 / 163840)
   \<and> rawAt defaultConfig 19
        (snd (start defaultConfig (Granted 44100) (Some (550, 0.9)) new_yin_controller)) = Some 0.5"
proof -
  let ?s = "snd (start defaultConfig (Granted 44100) (Some (550, 0.9)) new_yin_controller)"
  have pre: "isRunning ?s" "analyser ?s \<noteq> None" "audioContext ?s \<noteq> None"
    "lastFrequency ?s = Some 550" "(550 :: real) \<noteq> 0" "silenceFrames ?s = 0" "fallbackTimer ?s = 0"
    by (simp_all add: session_yin)
  have on: "onValue defaultConfig" by (simp add: defaultConfig_def)
  have r: "rescale defaultConfig 550 = 1"
    by (simp add: rescale_def defaultConfig_def MIN_PITCH_def MAX_PITCH_def clamp_def)
  have e: "emittedAt defaultConfig k ?s = Emitted (normalizedValue (silent defaultConfig k ?s))"
    if "k = Suc j" for k j
    using silent_frame(1) [OF pre, of defaultConfig j] on that by (simp only: emit_def if_True)
  have w: "normalizedValue (silent defaultConfig k ?s) = 161653 / 163840" if "6 \<le> k" "k \<le> 18" for k
    using waiting_keeps_value [OF pre that, of defaultConfig] voiced_then_silent(2) by simp
  have n: "rawAt defaultConfig k ?s = None" if "k = Suc j" "6 \<le> j" "j < 18" for k j
    using silent_frame(3) [OF pre that(2,3), of defaultConfig] that(1) by simp
  have 1: "emittedAt defaultConfig 1 ?s = Emitted (151 / 160)"
    using e [of 1 0] voiced_then_silent(1) by simp
  have 16: "emittedAt defaultConfig 16 ?s = Emitted (161653 / 163840)"
    using e [of 16 15] w [of 16] by simp
  have 17: "emittedAt defaultConfig 17 ?s = Emitted (161653 / 163840)"
    using e [of 17 16] w [of 17] by simp
  have 18: "emittedAt defaultConfig 18 ?s = Emitted (161653 / 163840)"
    using e [of 18 17] w [of 18] by simp
  have r17: "rawAt defaultConfig 17 ?s = None" by (rule n [of 17 16]) simp_all
  have r18: "rawAt defaultConfig 18 ?s = None" by (rule n [of 18 17]) simp_all
  have r19: "rawAt defaultConfig 19 ?s = Some 0.5"
    using silent_frame(4) [OF pre, of 18 defaultConfig] by simp
  from r pre(4) 1 16 17 18 r17 r18 r19 show ?thesis by blast
qed

theorem silent_frames_hold_wait_fallback_witness:
  "isRunning (snd (start defaultConfig (Granted 44100) (Some (550, 0.9)) new_yin_controller))
   \<and> lastFrequency (snd (start defaultConfig (Granted 44100) (Some (550, 0.9)) new_yin_controller))
       = Some 550
   \<and> silenceFrames (snd (start defaultConfig (Granted 44100) (Some (550, 0.9)) new_yin_controller)) = 0
   \<and> fallbackTimer (snd (start defaultConfig (Granted 44100) (Some (550, 0.9)) new_yin_controller)) = 0
   \<and> onValue defaultConfig \<and> smoothing defaultConfig \<le> 1
   \<and> minPitch defaultConfig \<noteq> maxPitch defaultConfig
   \<and> rawAt defaultConfig 3
        (snd (start defaultConfig (Granted 44100) (Some (550, 0.9)) new_yin_controller))
       = Some (rescale defaultConfig 550)
   \<and> rawAt defaultConfig 12
        (snd (start defaultConfig (Granted 44100) (Some (550, 0.9)) new_yin_controller)) = None
   \<and> rawAt defaultConfig 20
        (snd (start defaultConfig (Granted 44100) (Some (550, 0.9)) new_yin_controller)) = Some 0.5
   \<and> \<bar>normalizedValue (silent defaultConfig 25
          (snd (start defaultConfig (Granted 44100) (Some (550, 0.9)) new_yin_controller))) - 0.5\<bar>
       \<le> 0.82 * \<bar>normalizedValue (silent defaultConfig (25 - 1)
          (snd (start defaultConfig (Granted 44100) (Some (550, 0.9)) new_yin_controller))) - 0.5\<bar>"
proof -
  let ?s = "snd (start defaultConfig (Granted 44100) (Some (550, 0.9)) new_yin_controller)"
  have pre: "isRunning ?s" "analyser ?s \<noteq> None" "audioContext ?s \<noteq> None"
    "lastFrequency ?s = Some 550" "(550 :: real) \<noteq> 0" "silenceFrames ?s = 0" "fallbackTimer ?s = 0"
    "length (recentDetections ?s) \<le> maxDetections"
    by (simp_all add: session_yin maxDetections_def)
  have cfg: "onValue defaultConfig" "smoothing defaultConfig \<le> 1"
    "minPitch defaultConfig \<noteq> maxPitch defaultConfig"
    by (simp_all add: defaultConfig_def MIN_PITCH_def MAX_PITCH_def)
  note t = silent_frames_hold_wait_fallback [OF pre cfg]
  have "rawAt defaultConfig 3 ?s = Some (rescale defaultConfig 550)"
    using t [of 3] by simp
  moreover have "rawAt defaultConfig 12 ?s = None"
    using t [of 12] by simp
  moreover have "rawAt defaultConfig 20 ?s = Some 0.5"
    using t [of 20] by simp
  moreover have "(21 :: nat) \<le> 25" by simp
  with t [of 25] have "\<bar>normalizedValue (silent defaultConfig 25 ?s) - 0.5\<bar>
       \<le> 0.82 * \<bar>normalizedValue (silent defaultConfig (25 - 1) ?s) - 0.5\<bar>"
    by blast
  ultimately show ?thesis using pre cfg by blast
qed

section \<open>What an estimate of the YIN detector does satisfy\<close>

lemma difference_nonneg: "0 \<le> difference w tau"
  unfolding difference_def by (rule sum_list_nonneg) auto

lemma normalizeDifferences_length: "length (normalizeDifferences c tau ds) = length ds"
  by (induction ds arbitrary: c tau) (simp_all add: Let_def)

lemma normalizeDifferences_nonneg:
  "0 \<le> c \<Longrightarrow> \<forall>d\<in>set ds. 0 \<le> d \<Longrightarrow> \<forall>y\<in>set (normalizeDifferences c tau ds). 0 \<le> y"
proof (induction ds arbitrary: c tau)
  case Nil
  then show ?case by simp
next
  case (Cons d ds)
  then have c: "0 \<le> c + d" "0 \<le> d" "\<forall>e\<in>set ds. 0 \<le> e" by simp_all
  from Cons.IH [OF c(1,3)] have "\<forall>y\<in>set (normalizeDifferences (c + d) (Suc tau) ds). 0 \<le> y" .
  moreover have "0 \<le> (if c + d \<noteq> 0 then d * real tau / (c + d) else 1)"
    using c by simp
  ultimately show ?case by (simp add: Let_def)
qed

lemma yinBufferOf_length: "length (yinBufferOf w tauMax) = max 1 tauMax"
  by (simp add: yinBufferOf_def normalizeDifferences_length)

lemma yinBufferOf_nonneg: "i < length (yinBufferOf w tauMax) \<Longrightarrow> 0 \<le> yinBufferOf w tauMax ! i"
proof -
  assume i: "i < length (yinBufferOf w tauMax)"
  have "\<forall>y\<in>set (normalizeDifferences 0 1 (map (difference w) [1..<tauMax])). 0 \<le> y"
    by (rule normalizeDifferences_nonneg) (auto simp: difference_nonneg)
  then have "\<forall>y\<in>set (yinBufferOf w tauMax). 0 \<le> y"
    by (simp add: yinBufferOf_def)
  with i show ?thesis
    using nth_mem by blast
qed

text \<open>
  An estimate has a non-zero frequency and a probability in (0.88, 1]; the sign of the
  frequency is what the interpolation does not control.
\<close>

lemma yinPitch_estimate:
  assumes "0 < sampleRate" and "yinPitch buffer sampleRate minFrequency maxFrequency = Some (f, p)"
  shows "f \<noteq> 0 \<and> 0.88 < p \<and> p \<le> 1"
proof -
  let ?w = "hannWindow buffer"
  from assms(2) obtain tauMin where tmin: "tauMinOf sampleRate maxFrequency = Some tauMin"
    by (auto simp: yinPitch_def Let_def split: option.splits)
  let ?tauMax = "tauMaxOf sampleRate minFrequency (length ?w)"
  let ?yb = "yinBufferOf ?w (nat ?tauMax)"
  from assms(2) tmin have sel: "yinSelect sampleRate ?yb (nat tauMin) (nat ?tauMax) = Some (f, p)"
    by (auto simp: yinPitch_def Let_def split: if_splits)
  then obtain t where t: "search ?yb (nat ?tauMax) (nat tauMin) = Some t"
    by (auto simp: yinSelect_def split: option.splits)
  from sel t have fp: "p = 1 - ?yb ! t" "interpolate ?yb (nat ?tauMax) t \<noteq> 0"
    "f = sampleRate / interpolate ?yb (nat ?tauMax) t"
    by (auto simp: yinSelect_def Let_def split: if_splits)
  from search_bounds [OF t] have "t < length ?yb"
    by (simp add: yinBufferOf_length)
  then have "0 \<le> ?yb ! t" by (rule yinBufferOf_nonneg)
  moreover from search_below_threshold [OF t] have "?yb ! t < 0.12"
    by (simp add: threshold_def)
  ultimately show ?thesis
    using fp assms(1) by simp
qed

section \<open>Frames and detector outcomes\<close>

text \<open>
  \<^verbatim>\<open>processAudio\<close> is the step on detector outcomes, at the outcome of the detector on
  the frame; the stabilizer always has a median.
\<close>

lemma processAudio_processFrame:
  "processAudio cfg frame s
   = processFrame cfg
       (case audioContext s of None \<Rightarrow> None
        | Some sampleRate \<Rightarrow> yinPitch frame sampleRate (minPitch cfg) (maxPitch cfg)) s"
  by (simp add: processAudio_def processFrame_def split: option.splits)

lemma processAudio_ac_processFrame_ac:
  "processAudio_ac cfg frame s
   = processFrame_ac cfg
       (case audioContext s of None \<Rightarrow> None
        | Some sampleRate \<Rightarrow> autoCorrelate frame sampleRate) s"
  by (simp add: processAudio_ac_def processFrame_ac_def split: option.splits)

lemma median_defined: "vals \<noteq> [] \<Longrightarrow> median vals \<noteq> None"
  using median_between [of vals "Min (set vals)" "Max (set vals)"] by auto

lemma stabilizer_median_defined:
  "median (pushDetection maxDetections x h) \<noteq> None"
  "median (pushDetection maxDetections_ac x h) \<noteq> None"
  using pushDetection_nonempty [of 4 x h] pushDetection_nonempty [of 6 x h]
  by (simp_all add: median_defined maxDetections_def maxDetections_ac_def eval_nat_numeral)

end
